theory Spec2Isabelle
  imports Main "HOL-Library.Multiset"
begin

section \<open>The user model\<close>

text \<open>
  \<^verbatim>\<open>UyuniUser\<close> is the canonical identity record of the synchroniser. The fields keep
  the names of the Go struct; \<^verbatim>\<open>Err\<close> is the Go \<^verbatim>\<open>error\<close> (absent or a message).
\<close>

record UyuniUser =
  Dn :: string
  Uid :: string
  Email :: string
  Name :: string
  Secondname :: string
  Err :: "string option"
  roles :: "string list"
  new :: bool
  outdated :: bool
  accountchanged :: bool
  roleschanged :: bool

text \<open>
  Modelled from the spec: the constructor and the methods of \<^verbatim>\<open>UyuniUser\<close>
  (\<^verbatim>\<open>NewUyuniUser\<close>, \<^verbatim>\<open>IsNew\<close>, \<^verbatim>\<open>IsOutdated\<close>, \<^verbatim>\<open>IsValid\<close>, \<^verbatim>\<open>GetRoles\<close>,
  \<^verbatim>\<open>FlushRoles\<close>, \<^verbatim>\<open>AddRoles\<close>, \<^verbatim>\<open>Clone\<close>, \<^verbatim>\<open>CompareRoles\<close>), whose file is not
  among the sources. The spec's data model: a fresh user has every field empty and both
  flags off; \<^verbatim>\<open>roles\<close> is a set of role names, "insertion order irrelevant, duplicates
  collapsed"; role sets are compared order-independently; a user whose creation failed
  is marked invalid; a clone is a separate copy.
\<close>

definition NewUyuniUser :: UyuniUser where
  "NewUyuniUser =
     \<lparr>Dn = [], Uid = [], Email = [], Name = [], Secondname = [], Err = None, roles = [],
      new = False, outdated = False, accountchanged = False, roleschanged = False\<rparr>"

definition IsNew :: "UyuniUser \<Rightarrow> bool" where
  "IsNew u = new u"

definition IsOutdated :: "UyuniUser \<Rightarrow> bool" where
  "IsOutdated u = outdated u"

definition IsValid :: "UyuniUser \<Rightarrow> bool" where
  "IsValid u = (Err u = None)"

definition GetRoles :: "UyuniUser \<Rightarrow> string list" where
  "GetRoles u = roles u"

definition FlushRoles :: "UyuniUser \<Rightarrow> UyuniUser" where
  "FlushRoles u = u\<lparr>roles := []\<rparr>"

definition addRole :: "string list \<Rightarrow> string \<Rightarrow> string list" where
  "addRole rs r = (if r \<in> set rs then rs else rs @ [r])"

definition AddRoles :: "string list \<Rightarrow> UyuniUser \<Rightarrow> UyuniUser" where
  "AddRoles rs u = u\<lparr>roles := foldl addRole (roles u) rs\<rparr>"

definition Clone :: "UyuniUser \<Rightarrow> UyuniUser" where
  "Clone u = u"

definition CompareRoles :: "UyuniUser \<Rightarrow> UyuniUser \<Rightarrow> bool" where
  "CompareRoles a b = (set (roles a) = set (roles b))"

section \<open>Classification helpers\<close>

text \<open>
  \<^verbatim>\<open>in\<close>: the membership test by uid (the name \<^verbatim>\<open>in\<close> is reserved, hence the suffix).
\<close>

fun in_users :: "UyuniUser \<Rightarrow> UyuniUser list \<Rightarrow> bool" where
  "in_users user [] = False"
| "in_users user (u # users) = (if Uid u = Uid user then True else in_users user users)"

text \<open>
  \<^verbatim>\<open>sameAsIn\<close> takes the user by pointer and sets its diagnostic flags, so the model
  returns the user as it is left, beside Go's \<^verbatim>\<open>(bool, error)\<close>. The chain of
  \<^verbatim>\<open>if same ... else ...\<close> is kept as written: each \<^verbatim>\<open>else\<close> branch sets
  \<^verbatim>\<open>accountchanged\<close>, and a final \<^verbatim>\<open>!same\<close> sets \<^verbatim>\<open>roleschanged\<close>.
\<close>

definition compareWith :: "UyuniUser \<Rightarrow> UyuniUser \<Rightarrow> UyuniUser \<times> bool" where
  "compareWith user u =
     (let same = (Email u = Email user);
          (same, user) = (if same then (Name u = Name user, user)
                          else (same, user\<lparr>accountchanged := True\<rparr>));
          (same, user) = (if same then (Secondname u = Secondname user, user)
                          else (same, user\<lparr>accountchanged := True\<rparr>));
          (same, user) = (if same then (CompareRoles user u, user)
                          else (same, user\<lparr>accountchanged := True\<rparr>));
          user = (if \<not> same then user\<lparr>roleschanged := True\<rparr> else user)
      in (user, same))"

fun sameAsIn :: "UyuniUser \<Rightarrow> UyuniUser list \<Rightarrow> UyuniUser \<times> (string + bool)" where
  "sameAsIn user [] = (user, Inl (''User UID '' @ Uid user @ '' was not found''))"
| "sameAsIn user (u # users) =
     (if Uid u = Uid user then (case compareWith user u of (user', same) \<Rightarrow> (user', Inr same))
      else sameAsIn user users)"

text \<open>
  The body of the loop of \<^verbatim>\<open>refreshUyuniUsersStatus\<close> for one staged user:
  \<^verbatim>\<open>classify\<close> is its first half (the flags of the staged user, and the clone queued
  when the user is new), \<^verbatim>\<open>overwrite\<close> the assignment made to every destination user
  of the same uid.
\<close>

definition classify :: "UyuniUser \<Rightarrow> UyuniUser list \<Rightarrow> UyuniUser \<times> UyuniUser list" where
  "classify user0 uyuni =
     (let user = user0\<lparr>new := \<not> in_users user0 uyuni\<rparr>
      in if \<not> IsNew user then
           (case sameAsIn user uyuni of
              (user', Inr isSame) \<Rightarrow> (user'\<lparr>outdated := \<not> isSame\<rparr>, [])
            | (user', Inl err) \<Rightarrow> (user', []))
         else (user, [Clone user]))"

definition overwrite :: "UyuniUser \<Rightarrow> UyuniUser \<Rightarrow> UyuniUser" where
  "overwrite user uUuser =
     (if Uid uUuser = Uid user then
        AddRoles (GetRoles user)
          (FlushRoles (uUuser\<lparr>outdated := outdated user, Name := Name user,
                              Secondname := Secondname user, Email := Email user\<rparr>))
      else uUuser)"

fun refreshStatusLoop ::
  "UyuniUser list \<Rightarrow> UyuniUser list \<Rightarrow> UyuniUser list \<times> UyuniUser list \<times> UyuniUser list" where
  "refreshStatusLoop [] uyuni = ([], uyuni, [])"
| "refreshStatusLoop (user # rest) uyuni =
     (case classify user uyuni of (user', clones) \<Rightarrow>
        (case refreshStatusLoop rest (map (overwrite user') uyuni) of
           (rest', uyuni', newusers) \<Rightarrow> (user' # rest', uyuni', clones @ newusers)))"

section \<open>The directory: entries, requests and the LDAP caller\<close>

text \<open>
  An entry of the directory as the go-ldap library exposes it: its DN and its attributes,
  each with a list of values. \<^verbatim>\<open>GetAttributeValues\<close> returns the values of the first
  attribute of that name (none: the empty list), \<^verbatim>\<open>GetAttributeValue\<close> the first of
  them (none: the empty string).
\<close>

record Entry =
  DN :: string
  Attributes :: "(string \<times> string list) list"

definition GetAttributeValues :: "Entry \<Rightarrow> string \<Rightarrow> string list" where
  "GetAttributeValues entry attr =
     (case map_of (Attributes entry) attr of None \<Rightarrow> [] | Some vs \<Rightarrow> vs)"

definition GetAttributeValue :: "Entry \<Rightarrow> string \<Rightarrow> string" where
  "GetAttributeValue entry attr =
     (case GetAttributeValues entry attr of [] \<Rightarrow> [] | v # _ \<Rightarrow> v)"

text \<open>
  Every search request of the program is a whole-subtree search that never dereferences
  aliases, has no limits and asks for all attributes; the requests differ in the base DN
  and the filter only. A connection answers a request with an error or with entries.
\<close>

record SearchRequest =
  BaseDN :: string
  Filter :: string

definition NewSearchRequest :: "string \<Rightarrow> string \<Rightarrow> SearchRequest" where
  "NewSearchRequest dn flt = \<lparr>BaseDN = dn, Filter = flt\<rparr>"

type_synonym Conn = "SearchRequest \<Rightarrow> string + Entry list"

text \<open>
  What ends the process: \<^verbatim>\<open>Log.Fatal\<close> (by the place that calls it) and a Go panic.
\<close>

datatype fatal =
  FatalDial string
| FatalSearch string
| FatalCall string
| FatalNoFrozenOrgAdmin
| Panic

text \<open>
  \<^verbatim>\<open>LDAPCaller\<close> (ldapcalls.go). The fields carry the prefix \<^verbatim>\<open>lc_\<close>. The network
  is the parameter \<^verbatim>\<open>dial\<close> of \<^verbatim>\<open>Connect\<close>: what \<^verbatim>\<open>ldap.Dial\<close> answers for a
  protocol, a host and a port. A search on a caller that was never connected dereferences
  a nil connection, which is a panic.
\<close>

record LDAPCaller =
  lc_user :: string
  lc_password :: string
  lc_host :: string
  lc_proto :: string
  lc_port :: int
  lc_conn :: "Conn option"

definition NewLDAPCaller :: LDAPCaller where
  "NewLDAPCaller =
     \<lparr>lc_user = [], lc_password = [], lc_host = [], lc_proto = ''tcp'', lc_port = 389,
      lc_conn = None\<rparr>"

definition SetUser :: "string \<Rightarrow> LDAPCaller \<Rightarrow> LDAPCaller" where
  "SetUser v c = c\<lparr>lc_user := v\<rparr>"

definition SetPassword :: "string \<Rightarrow> LDAPCaller \<Rightarrow> LDAPCaller" where
  "SetPassword v c = c\<lparr>lc_password := v\<rparr>"

definition SetPort :: "int \<Rightarrow> LDAPCaller \<Rightarrow> LDAPCaller" where
  "SetPort v c = c\<lparr>lc_port := v\<rparr>"

definition SetProto :: "string \<Rightarrow> LDAPCaller \<Rightarrow> LDAPCaller" where
  "SetProto v c = c\<lparr>lc_proto := v\<rparr>"

definition SetHost :: "string \<Rightarrow> LDAPCaller \<Rightarrow> LDAPCaller" where
  "SetHost v c = c\<lparr>lc_host := v\<rparr>"

definition Connect ::
  "(string \<Rightarrow> string \<Rightarrow> int \<Rightarrow> string + Conn) \<Rightarrow> LDAPCaller \<Rightarrow> fatal + LDAPCaller" where
  "Connect dial c =
     (case lc_conn c of
        Some _ \<Rightarrow> Inr c
      | None \<Rightarrow>
          (case dial (lc_proto c) (lc_host c) (lc_port c) of
             Inl err \<Rightarrow> Inl (FatalDial err)
           | Inr cn \<Rightarrow> Inr (c\<lparr>lc_conn := Some cn\<rparr>)))"

definition Disconnect :: "LDAPCaller \<Rightarrow> LDAPCaller" where
  "Disconnect c = (case lc_conn c of Some _ \<Rightarrow> c\<lparr>lc_conn := None\<rparr> | None \<Rightarrow> c)"

definition Search :: "LDAPCaller \<Rightarrow> SearchRequest \<Rightarrow> fatal + Entry list" where
  "Search c request =
     (case lc_conn c of
        None \<Rightarrow> Inl Panic
      | Some cn \<Rightarrow>
          (case cn request of Inl err \<Rightarrow> Inl (FatalSearch err) | Inr entries \<Rightarrow> Inr entries))"

section \<open>The destination: remote calls\<close>

text \<open>
  The values an XML-RPC reply is made of, as far as the program looks into them, and
  the calls the program makes (the method with its arguments; the session is the same
  for every call). \<^verbatim>\<open>user.create\<close> is always called with an empty password and the
  flag 1, \<^verbatim>\<open>user.usePamAuthentication\<close> with 1; \<^verbatim>\<open>user.setDetails\<close> carries the
  first name, the last name and the email.
\<close>

datatype xval =
  XString string
| XArray "xval list"
| XStruct "(string \<times> xval) list"
| XInt int

datatype rpc =
  UserListUsers
| UserGetDetails string
| UserListRoles string
| UserRemoveRole string string
| UserAddRole string string
| UserCreate string string string string
| UserSetDetails string string string string
| UserUsePamAuthentication string
| UserDelete string

text \<open>
  Modelled from the spec: \<^verbatim>\<open>UyuniCaller\<close> and its method \<^verbatim>\<open>Call\<close>, whose file is not
  among the sources: "a session-based remote call facility
  \<^verbatim>\<open>call(session, methodName, ...args) -> (result, error)\<close>". The remote side is any
  state machine \<^verbatim>\<open>remote\<close> over a state \<^verbatim>\<open>server\<close>; \<^verbatim>\<open>trace\<close> records the calls made,
  oldest first, so that what a run has asked of the destination can be observed.
\<close>

record 's UyuniCaller =
  remote :: "'s \<Rightarrow> rpc \<Rightarrow> (string + xval) \<times> 's"
  server :: 's
  trace :: "rpc list"

definition Call :: "'s UyuniCaller \<Rightarrow> rpc \<Rightarrow> (string + xval) \<times> 's UyuniCaller" where
  "Call c request =
     (case remote c (server c) request of
        (res, s') \<Rightarrow> (res, c\<lparr>server := s', trace := trace c @ [request]\<rparr>))"

section \<open>Configuration and the synchroniser's state\<close>

text \<open>
  The \<^verbatim>\<open>directory\<close> section of the configuration (ldapsync-roles.conf shows one).
  \<^verbatim>\<open>Groups\<close> and \<^verbatim>\<open>Roles\<close> are Go maps that the program ranges over: they are
  association lists here, ranged over in list order (Go leaves the order open, so every
  order Go may take is some permutation of the list). \<^verbatim>\<open>Attrmap\<close> is only looked up.
\<close>

record Directory =
  User :: string
  Password :: string
  Host :: string
  Port :: int
  Frozen :: "string list"
  Groups :: "(string \<times> string list) list"
  Roles :: "(string \<times> string list) list"
  Attrmap :: "string \<rightharpoonup> (string \<rightharpoonup> string)"
  Allusers :: string

record SearchConfig =
  config :: "(string \<times> string list) list"
  filterBy :: string
  attribute :: string

text \<open>
  The lines \<^verbatim>\<open>Log.Errorf\<close> writes, by the place that writes them (the debug and info
  lines are diagnostics and are left out).
\<close>

datatype errline =
  ErrNoFrozenUser string
| ErrAmbiguousDN string
| ErrCannotDelete string string
| ErrPushAccountData string string
| ErrPushAuthentication string string
| ErrCannotListRoles string string
| ErrCannotRemoveRole string string
| ErrCannotAddRole string string

text \<open>
  \<^verbatim>\<open>LDAPSync\<close>; \<^verbatim>\<open>cr\<close> stands for \<^verbatim>\<open>sync.cr.Config().Directory\<close>, and \<^verbatim>\<open>errors\<close>
  for what the global logger has written at error level.
\<close>

record 's LDAPSync =
  lc :: LDAPCaller
  uc :: "'s UyuniCaller"
  cr :: Directory
  ldapusers :: "UyuniUser list"
  uyuniusers :: "UyuniUser list"
  allldapusers :: "UyuniUser list"
  roleConfigs :: "SearchConfig list"
  errors :: "errline list"

definition NewLDAPSync :: "Directory \<Rightarrow> 's UyuniCaller \<Rightarrow> 's LDAPSync" where
  "NewLDAPSync cfg caller =
     \<lparr>lc = SetPassword (Password cfg) (SetUser (User cfg) (SetPort (Port cfg)
             (SetHost (Host cfg) NewLDAPCaller))),
      uc = caller,
      cr = cfg,
      ldapusers = [],
      uyuniusers = [],
      allldapusers = [],
      roleConfigs =
        [\<lparr>config = Roles cfg, filterBy = ''(objectClass=organizationalRole)'',
          attribute = ''roleOccupant''\<rparr>,
         \<lparr>config = Groups cfg, filterBy = ''(|(objectClass=groupOfNames)(objectClass=group))'',
          attribute = ''member''\<rparr>],
      errors = []\<rparr>"

definition Errorf :: "errline \<Rightarrow> 's LDAPSync \<Rightarrow> 's LDAPSync" where
  "Errorf l sync = sync\<lparr>errors := errors sync @ [l]\<rparr>"

definition call :: "'s LDAPSync \<Rightarrow> rpc \<Rightarrow> (string + xval) \<times> 's LDAPSync" where
  "call sync request = (case Call (uc sync) request of (res, c) \<Rightarrow> (res, sync\<lparr>uc := c\<rparr>))"

text \<open>
  A step that may end the process returns the reason with the state left behind
  (\<open>Inl\<close>), or its result (\<open>Inr\<close>); \<^verbatim>\<open>andThen\<close> runs the next step after one that
  returned.
\<close>

type_synonym ('s, 'a) exits = "(fatal \<times> 's LDAPSync) + 'a"

definition andThen :: "('s, 'a) exits \<Rightarrow> ('a \<Rightarrow> ('s, 'b) exits) \<Rightarrow> ('s, 'b) exits" where
  "andThen r f = (case r of Inl x \<Rightarrow> Inl x | Inr a \<Rightarrow> f a)"

section \<open>Directory-derived users\<close>

fun getAttributes :: "Entry \<Rightarrow> string list \<Rightarrow> string" where
  "getAttributes entry [] = []"
| "getAttributes entry (a # attr) =
     (let obj = GetAttributeValue entry a in if obj \<noteq> [] then obj else getAttributes entry attr)"

definition getAttributeNameFor :: "'s LDAPSync \<Rightarrow> string \<Rightarrow> string" where
  "getAttributeNameFor sync attr =
     (case Attrmap (cr sync) (Allusers (cr sync)) of
        Some fieldmap \<Rightarrow> (case fieldmap attr of Some nAttr \<Rightarrow> nAttr | None \<Rightarrow> attr)
      | None \<Rightarrow> attr)"

text \<open>
  Go's \<^verbatim>\<open>strings.Split\<close> for a separator of one character: the pieces between the
  occurrences of the separator, empty pieces included (the empty string gives one empty
  piece).
\<close>

fun Split :: "string \<Rightarrow> char \<Rightarrow> string list" where
  "Split [] sep = [[]]"
| "Split (c # cs) sep =
     (if c = sep then [] # Split cs sep
      else (case Split cs sep of [] \<Rightarrow> [[c]] | w # ws \<Rightarrow> (c # w) # ws))"

definition newUserFromDN :: "'s LDAPSync \<Rightarrow> string \<Rightarrow> ('s, UyuniUser \<times> 's LDAPSync) exits" where
  "newUserFromDN sync dn =
     (let user = NewUyuniUser;
          request = NewSearchRequest dn ''(objectClass=*)''
      in case Search (lc sync) request of
           Inl f \<Rightarrow> Inl (f, sync)
         | Inr entries \<Rightarrow>
             (case entries of
                [entry] \<Rightarrow>
                  (let user = user\<lparr>Dn := DN entry,
                                   Uid := GetAttributeValue entry (getAttributeNameFor sync ''uid''),
                                   Email := GetAttributeValue entry (getAttributeNameFor sync ''mail'')\<rparr>;
                       cn = Split (GetAttributeValue entry ''cn'') CHR '' ''
                   in case cn of
                        [given, family] \<Rightarrow> Inr (user\<lparr>Name := given, Secondname := family\<rparr>, sync)
                      | _ \<Rightarrow>
                          Inr (user\<lparr>Name := getAttributes entry
                                               [getAttributeNameFor sync ''name'',
                                                getAttributeNameFor sync ''givenName''],
                                     Secondname := GetAttributeValue entry
                                                     (getAttributeNameFor sync ''sn'')\<rparr>, sync))
              | _ \<Rightarrow> Inr (user, Errorf (ErrAmbiguousDN dn) sync)))"

fun allUsersLoop :: "'s LDAPSync \<Rightarrow> Entry list \<Rightarrow> ('s, 's LDAPSync) exits" where
  "allUsersLoop sync [] = Inr sync"
| "allUsersLoop sync (entry # entries) =
     (case newUserFromDN sync (DN entry) of
        Inl x \<Rightarrow> Inl x
      | Inr (user, sync') \<Rightarrow>
          allUsersLoop (sync'\<lparr>allldapusers := allldapusers sync' @ [user]\<rparr>) entries)"

definition refreshAllLDAPUsers :: "'s LDAPSync \<Rightarrow> ('s, 's LDAPSync) exits" where
  "refreshAllLDAPUsers sync0 =
     (let sync = sync0\<lparr>allldapusers := []\<rparr>;
          request = NewSearchRequest (Allusers (cr sync)) ''(objectClass=organizationalPerson)''
      in case Search (lc sync) request of
           Inl f \<Rightarrow> Inl (f, sync)
         | Inr entries \<Rightarrow> allUsersLoop sync entries)"

text \<open>
  \<^verbatim>\<open>mergeValues\<close> is the inner loop of \<^verbatim>\<open>mergeRolesByAttributes\<close>, over the values
  of the member attribute of one entry.
\<close>

definition mergeValues :: "string list \<Rightarrow> UyuniUser \<Rightarrow> string list \<Rightarrow> UyuniUser" where
  "mergeValues uyuniRoles usr vals =
     foldl (\<lambda>usr' roleDn. if roleDn = Dn usr' then AddRoles uyuniRoles usr' else usr') usr vals"

definition mergeRolesByAttributes ::
  "'s LDAPSync \<Rightarrow> string \<Rightarrow> UyuniUser \<Rightarrow> string \<Rightarrow> string \<Rightarrow> string list \<Rightarrow> ('s, UyuniUser) exits" where
  "mergeRolesByAttributes sync dn user flt attr uyuniRoles =
     (case Search (lc sync) (NewSearchRequest dn flt) of
        Inl f \<Rightarrow> Inl (f, sync)
      | Inr entries \<Rightarrow>
          Inr (foldl (\<lambda>usr entry. mergeValues uyuniRoles usr (GetAttributeValues entry attr))
                 user entries))"

fun mergeLoop ::
  "'s LDAPSync \<Rightarrow> SearchConfig \<Rightarrow> (string \<times> string list) list \<Rightarrow> UyuniUser \<Rightarrow> ('s, UyuniUser) exits" where
  "mergeLoop sync searchConfig [] user = Inr user"
| "mergeLoop sync searchConfig ((dn, uyuniRoles) # rest) user =
     (case mergeRolesByAttributes sync dn user (filterBy searchConfig) (attribute searchConfig)
             uyuniRoles of
        Inl x \<Rightarrow> Inl x
      | Inr user' \<Rightarrow> mergeLoop sync searchConfig rest user')"

fun roleConfigsLoop :: "'s LDAPSync \<Rightarrow> SearchConfig list \<Rightarrow> UyuniUser \<Rightarrow> ('s, UyuniUser) exits" where
  "roleConfigsLoop sync [] user = Inr user"
| "roleConfigsLoop sync (searchConfig # rest) user =
     (case mergeLoop sync searchConfig (config searchConfig) user of
        Inl x \<Rightarrow> Inl x
      | Inr user' \<Rightarrow> roleConfigsLoop sync rest user')"

definition updateLDAPUserRoles :: "'s LDAPSync \<Rightarrow> UyuniUser \<Rightarrow> ('s, UyuniUser) exits" where
  "updateLDAPUserRoles sync user = roleConfigsLoop sync (roleConfigs sync) user"

text \<open>
  \<^verbatim>\<open>refreshStagedLDAPUsers\<close>. The Go map \<^verbatim>\<open>udns\<close> is the list of its keys, each
  once, in the order they were first set; the second loop ranges over it in that order.
\<close>

definition setKey :: "string list \<Rightarrow> string \<Rightarrow> string list" where
  "setKey udns udn = (if udn \<in> set udns then udns else udns @ [udn])"

fun groupLoop :: "'s LDAPSync \<Rightarrow> string list \<Rightarrow> string list \<Rightarrow> ('s, string list) exits" where
  "groupLoop sync [] udns = Inr udns"
| "groupLoop sync (gdn # gdns) udns =
     (case Search (lc sync) (NewSearchRequest gdn ''(objectClass=*)'') of
        Inl f \<Rightarrow> Inl (f, sync)
      | Inr entries \<Rightarrow>
          groupLoop sync gdns
            (foldl (\<lambda>acc entry.
                      foldl setKey acc
                        (GetAttributeValues entry ''member'' @ GetAttributeValues entry ''roleOccupant''))
               udns entries))"

fun stagedLoop :: "'s LDAPSync \<Rightarrow> string list \<Rightarrow> ('s, 's LDAPSync) exits" where
  "stagedLoop sync [] = Inr sync"
| "stagedLoop sync (udn # udns) =
     (case newUserFromDN sync udn of
        Inl x \<Rightarrow> Inl x
      | Inr (user, sync') \<Rightarrow>
          (if Uid user \<noteq> [] \<and> Uid user \<notin> set (Frozen (cr sync')) then
             (case updateLDAPUserRoles sync' user of
                Inl x \<Rightarrow> Inl x
              | Inr user' \<Rightarrow> stagedLoop (sync'\<lparr>ldapusers := ldapusers sync' @ [user']\<rparr>) udns)
           else stagedLoop sync' udns))"

definition refreshStagedLDAPUsers :: "'s LDAPSync \<Rightarrow> ('s, 's LDAPSync) exits" where
  "refreshStagedLDAPUsers sync0 =
     (let sync = sync0\<lparr>ldapusers := []\<rparr>
      in case groupLoop sync (map fst (Groups (cr sync)) @ map fst (Roles (cr sync))) [] of
           Inl x \<Rightarrow> Inl x
         | Inr udns \<Rightarrow> stagedLoop sync udns)"

section \<open>The lockout guard and the destination-derived users\<close>

text \<open>
  The inner loop of \<^verbatim>\<open>verifyIgnoredUsers\<close> over one reply: \<open>Some True\<close> when it
  reaches \<^verbatim>\<open>org_admin\<close>, \<open>Some False\<close> when the roles run out, \<open>None\<close> when the
  assertion \<^verbatim>\<open>role.(string)\<close> panics on an element before that.
\<close>

fun hasOrgAdmin :: "xval list \<Rightarrow> bool option" where
  "hasOrgAdmin [] = Some False"
| "hasOrgAdmin (role # rest) =
     (case role of
        XString r \<Rightarrow> (if r = ''org_admin'' then Some True else hasOrgAdmin rest)
      | _ \<Rightarrow> None)"

fun verifyLoop :: "'s LDAPSync \<Rightarrow> string list \<Rightarrow> ('s, bool \<times> 's LDAPSync) exits" where
  "verifyLoop sync [] = Inr (False, sync)"
| "verifyLoop sync (uid # uids) =
     (case call sync (UserListRoles uid) of
        (Inl err, sync') \<Rightarrow> verifyLoop (Errorf (ErrNoFrozenUser uid) sync') uids
      | (Inr res, sync') \<Rightarrow>
          (case res of
             XArray rs \<Rightarrow>
               (case hasOrgAdmin rs of
                  None \<Rightarrow> Inl (Panic, sync')
                | Some True \<Rightarrow> Inr (True, sync')
                | Some False \<Rightarrow> verifyLoop sync' uids)
           | _ \<Rightarrow> Inl (Panic, sync')))"

definition verifyIgnoredUsers :: "'s LDAPSync \<Rightarrow> ('s, 's LDAPSync) exits" where
  "verifyIgnoredUsers sync =
     (case verifyLoop sync (Frozen (cr sync)) of
        Inl x \<Rightarrow> Inl x
      | Inr (valid, sync') \<Rightarrow>
          (if \<not> valid then Inl (FatalNoFrozenOrgAdmin, sync') else Inr sync'))"

text \<open>
  \<^verbatim>\<open>refreshExistingUyuniUsers\<close>. \<^verbatim>\<open>stringField\<close> is \<^verbatim>\<open>m[key].(string)\<close>, which
  panics (\<open>None\<close>) when the key is absent or holds no string; \<^verbatim>\<open>addReplyRoles\<close> is
  the loop \<^verbatim>\<open>user.AddRoles(roleItf.(string))\<close>; \<^verbatim>\<open>existingUser\<close> is the body of the
  main loop after the frozen uids have been skipped.
\<close>

definition stringField :: "(string \<times> xval) list \<Rightarrow> string \<Rightarrow> string option" where
  "stringField m key = (case map_of m key of Some (XString v) \<Rightarrow> Some v | _ \<Rightarrow> None)"

fun addReplyRoles :: "xval list \<Rightarrow> UyuniUser \<Rightarrow> UyuniUser option" where
  "addReplyRoles [] user = Some user"
| "addReplyRoles (roleItf # rest) user =
     (case roleItf of XString r \<Rightarrow> addReplyRoles rest (AddRoles [r] user) | _ \<Rightarrow> None)"

definition existingUser :: "'s LDAPSync \<Rightarrow> string \<Rightarrow> ('s, UyuniUser \<times> 's LDAPSync) exits" where
  "existingUser sync uid =
     (let user = NewUyuniUser\<lparr>Uid := uid\<rparr>
      in case call sync (UserGetDetails (Uid user)) of
           (Inl err, sync1) \<Rightarrow> Inl (FatalCall err, sync1)
         | (Inr res, sync1) \<Rightarrow>
             (case res of
                XStruct userDetails \<Rightarrow>
                  (case (stringField userDetails ''email'', stringField userDetails ''first_name'',
                         stringField userDetails ''last_name'') of
                     (Some email, Some first_name, Some last_name) \<Rightarrow>
                       (let user = user\<lparr>Email := email, Name := first_name, Secondname := last_name\<rparr>
                        in case call sync1 (UserListRoles (Uid user)) of
                             (Inl err, sync2) \<Rightarrow> Inl (FatalCall err, sync2)
                           | (Inr res', sync2) \<Rightarrow>
                               (case res' of
                                  XArray rs \<Rightarrow>
                                    (case addReplyRoles rs user of
                                       None \<Rightarrow> Inl (Panic, sync2)
                                     | Some user' \<Rightarrow> Inr (user', sync2))
                                | _ \<Rightarrow> Inl (Panic, sync2)))
                   | _ \<Rightarrow> Inl (Panic, sync1))
              | _ \<Rightarrow> Inl (Panic, sync1)))"

fun existingLoop :: "'s LDAPSync \<Rightarrow> xval list \<Rightarrow> ('s, 's LDAPSync) exits" where
  "existingLoop sync [] = Inr sync"
| "existingLoop sync (usrdata # rest) =
     (case usrdata of
        XStruct m \<Rightarrow>
          (case stringField m ''login'' of
             None \<Rightarrow> Inl (Panic, sync)
           | Some uid \<Rightarrow>
               (if uid \<in> set (Frozen (cr sync)) then existingLoop sync rest
                else (case existingUser sync uid of
                        Inl x \<Rightarrow> Inl x
                      | Inr (user, sync') \<Rightarrow>
                          existingLoop (sync'\<lparr>uyuniusers := uyuniusers sync' @ [user]\<rparr>) rest)))
      | _ \<Rightarrow> Inl (Panic, sync))"

definition refreshExistingUyuniUsers :: "'s LDAPSync \<Rightarrow> ('s, 's LDAPSync) exits" where
  "refreshExistingUyuniUsers sync0 =
     (let sync = sync0\<lparr>uyuniusers := []\<rparr>
      in case call sync UserListUsers of
           (Inl err, sync1) \<Rightarrow> Inl (FatalCall err, sync1)
         | (Inr res, sync1) \<Rightarrow>
             (case res of XArray us \<Rightarrow> existingLoop sync1 us | _ \<Rightarrow> Inl (Panic, sync1)))"

section \<open>Classification and the run up to it\<close>

definition refreshUyuniUsersStatus :: "'s LDAPSync \<Rightarrow> 's LDAPSync" where
  "refreshUyuniUsersStatus sync =
     (case refreshStatusLoop (ldapusers sync) (uyuniusers sync) of
        (staged, uyuni, newusers) \<Rightarrow> sync\<lparr>ldapusers := staged, uyuniusers := uyuni @ newusers\<rparr>)"

definition Start ::
  "(string \<Rightarrow> string \<Rightarrow> int \<Rightarrow> string + Conn) \<Rightarrow> 's LDAPSync \<Rightarrow> ('s, 's LDAPSync) exits" where
  "Start dial sync =
     (case Connect dial (lc sync) of
        Inl f \<Rightarrow> Inl (f, sync)
      | Inr c \<Rightarrow>
          andThen (verifyIgnoredUsers (sync\<lparr>lc := c\<rparr>)) (\<lambda>sync1.
          andThen (refreshExistingUyuniUsers sync1) (\<lambda>sync2.
          andThen (refreshStagedLDAPUsers sync2) (\<lambda>sync3.
          andThen (refreshAllLDAPUsers sync3) (\<lambda>sync4.
          Inr (refreshUyuniUsersStatus sync4))))))"

definition Finish :: "'s LDAPSync \<Rightarrow> 's LDAPSync" where
  "Finish sync = sync\<lparr>lc := Disconnect (lc sync)\<rparr>"

section \<open>The push step\<close>

definition updateFromLDAPUser :: "'s LDAPSync \<Rightarrow> UyuniUser \<Rightarrow> UyuniUser" where
  "updateFromLDAPUser sync uyuniUser =
     foldl (\<lambda>usr ldapUser.
              if Uid ldapUser = Uid usr then
                foldl (\<lambda>usr' role. AddRoles [role] usr')
                  (FlushRoles (usr\<lparr>Name := Name ldapUser, Secondname := Secondname ldapUser,
                                    Email := Email ldapUser\<rparr>))
                  (GetRoles ldapUser)
              else usr)
       uyuniUser (ldapusers sync)"

definition GetDeletedUsers :: "'s LDAPSync \<Rightarrow> UyuniUser list" where
  "GetDeletedUsers sync =
     filter (\<lambda>user. \<not> in_users user (ldapusers sync) \<and> in_users user (uyuniusers sync))
       (allldapusers sync)"

text \<open>
  \<^verbatim>\<open>GetNewUsers\<close> updates the new users where they are, in \<^verbatim>\<open>sync.uyuniusers\<close>, and
  returns them: the model returns the list and the state with the updated users.
\<close>

definition GetNewUsers :: "'s LDAPSync \<Rightarrow> UyuniUser list \<times> 's LDAPSync" where
  "GetNewUsers sync =
     (let uyuni = map (\<lambda>user. if IsNew user then updateFromLDAPUser sync user else user)
                    (uyuniusers sync)
      in (filter IsNew uyuni, sync\<lparr>uyuniusers := uyuni\<rparr>))"

definition GetOutdatedUsers :: "'s LDAPSync \<Rightarrow> UyuniUser list" where
  "GetOutdatedUsers sync = filter (\<lambda>user. \<not> IsNew user \<and> IsOutdated user) (uyuniusers sync)"

definition deleteUser :: "'s LDAPSync \<Rightarrow> UyuniUser \<Rightarrow> 's LDAPSync" where
  "deleteUser sync uyuniUser =
     (case call sync (UserDelete (Uid uyuniUser)) of
        (Inl err, sync') \<Rightarrow> Errorf (ErrCannotDelete (Uid uyuniUser) err) sync'
      | (Inr _, sync') \<Rightarrow> sync')"

definition pushUserAccountDataToUyuni :: "'s LDAPSync \<Rightarrow> UyuniUser \<Rightarrow> 's LDAPSync" where
  "pushUserAccountDataToUyuni sync user =
     (case call sync (UserSetDetails (Uid user) (Name user) (Secondname user) (Email user)) of
        (Inl err, sync1) \<Rightarrow> Errorf (ErrPushAccountData (Uid user) err) sync1
      | (Inr _, sync1) \<Rightarrow>
          (case call sync1 (UserUsePamAuthentication (Uid user)) of
             (Inl err, sync2) \<Rightarrow> Errorf (ErrPushAuthentication (Uid user) err) sync2
           | (Inr _, sync2) \<Rightarrow> sync2))"

fun removeLoop :: "'s LDAPSync \<Rightarrow> string \<Rightarrow> xval list \<Rightarrow> ('s, 's LDAPSync) exits" where
  "removeLoop sync uid [] = Inr sync"
| "removeLoop sync uid (role # rest) =
     (case role of
        XString r \<Rightarrow>
          (case call sync (UserRemoveRole uid r) of
             (Inl err, sync') \<Rightarrow> removeLoop (Errorf (ErrCannotRemoveRole r err) sync') uid rest
           | (Inr _, sync') \<Rightarrow> removeLoop sync' uid rest)
      | _ \<Rightarrow> Inl (Panic, sync))"

fun addLoop :: "'s LDAPSync \<Rightarrow> string \<Rightarrow> string list \<Rightarrow> 's LDAPSync" where
  "addLoop sync uid [] = sync"
| "addLoop sync uid (role # rest) =
     (case call sync (UserAddRole uid role) of
        (Inl err, sync') \<Rightarrow> addLoop (Errorf (ErrCannotAddRole role err) sync') uid rest
      | (Inr _, sync') \<Rightarrow> addLoop sync' uid rest)"

definition pushUserRolesToUyuni :: "'s LDAPSync \<Rightarrow> UyuniUser \<Rightarrow> ('s, 's LDAPSync) exits" where
  "pushUserRolesToUyuni sync uyuniUser =
     (case call sync (UserListRoles (Uid uyuniUser)) of
        (Inl err, sync1) \<Rightarrow> Inr (Errorf (ErrCannotListRoles (Uid uyuniUser) err) sync1)
      | (Inr ret, sync1) \<Rightarrow>
          (case ret of
             XArray rs \<Rightarrow>
               (case removeLoop sync1 (Uid uyuniUser) rs of
                  Inl x \<Rightarrow> Inl x
                | Inr sync2 \<Rightarrow> Inr (addLoop sync2 (Uid uyuniUser) (GetRoles uyuniUser)))
           | _ \<Rightarrow> Inl (Panic, sync1)))"

text \<open>
  The three passes of \<^verbatim>\<open>SyncUsers\<close>. The users of the first pass are pointers into
  \<^verbatim>\<open>sync.uyuniusers\<close>: the loop returns them as it leaves them (\<^verbatim>\<open>Err\<close> assigned),
  and \<^verbatim>\<open>storeBack\<close> puts them where they stand in that list.
\<close>

fun createLoop ::
  "'s LDAPSync \<Rightarrow> UyuniUser list \<Rightarrow> UyuniUser list \<Rightarrow>
     ('s, UyuniUser list \<times> UyuniUser list \<times> 's LDAPSync) exits" where
  "createLoop sync failed [] = Inr (failed, [], sync)"
| "createLoop sync failed (user0 # users) =
     (case call sync (UserCreate (Uid user0) (Name user0) (Secondname user0) (Email user0)) of
        (res, sync1) \<Rightarrow>
          (let user = user0\<lparr>Err := (case res of Inl err \<Rightarrow> Some err | Inr _ \<Rightarrow> None)\<rparr>
           in if \<not> IsValid user then
                (case createLoop sync1 (failed @ [user]) users of
                   Inl x \<Rightarrow> Inl x
                 | Inr (failed', users', sync') \<Rightarrow> Inr (failed', user # users', sync'))
              else
                (case pushUserRolesToUyuni sync1 user of
                   Inl x \<Rightarrow> Inl x
                 | Inr sync2 \<Rightarrow>
                     (case createLoop sync2 failed users of
                        Inl x \<Rightarrow> Inl x
                      | Inr (failed', users', sync') \<Rightarrow> Inr (failed', user # users', sync')))))"

fun storeBack :: "UyuniUser list \<Rightarrow> UyuniUser list \<Rightarrow> UyuniUser list" where
  "storeBack [] users = []"
| "storeBack (u # uyuni) users =
     (if IsNew u then
        (case users of [] \<Rightarrow> u # storeBack uyuni [] | user # rest \<Rightarrow> user # storeBack uyuni rest)
      else u # storeBack uyuni users)"

fun updateLoop :: "'s LDAPSync \<Rightarrow> UyuniUser list \<Rightarrow> ('s, 's LDAPSync) exits" where
  "updateLoop sync [] = Inr sync"
| "updateLoop sync (user # users) =
     (case pushUserRolesToUyuni sync user of
        Inl x \<Rightarrow> Inl x
      | Inr sync1 \<Rightarrow> updateLoop (pushUserAccountDataToUyuni sync1 user) users)"

fun deleteLoop :: "'s LDAPSync \<Rightarrow> UyuniUser list \<Rightarrow> 's LDAPSync" where
  "deleteLoop sync [] = sync"
| "deleteLoop sync (user # users) = deleteLoop (deleteUser sync user) users"

definition SyncUsers :: "'s LDAPSync \<Rightarrow> ('s, UyuniUser list \<times> 's LDAPSync) exits" where
  "SyncUsers sync0 =
     (case GetNewUsers sync0 of
        (newUsers, sync) \<Rightarrow>
          (case createLoop sync [] newUsers of
             Inl x \<Rightarrow> Inl x
           | Inr (failed, created, sync1) \<Rightarrow>
               (let sync2 = sync1\<lparr>uyuniusers := storeBack (uyuniusers sync1) created\<rparr>;
                    existingUsers = GetOutdatedUsers sync2
                in case updateLoop sync2 existingUsers of
                     Inl x \<Rightarrow> Inl x
                   | Inr sync3 \<Rightarrow>
                       (let deletedUsers = GetDeletedUsers sync3
                        in Inr (failed, deleteLoop sync3 deletedUsers)))))"

section \<open>Observing a run\<close>

text \<open>
  What a trace of remote calls says: the uid a call writes to (\<open>None\<close> for the three
  read calls), the uids of the creation calls and of the deletion calls, in order;
  \<^verbatim>\<open>updates uid\<close> holds of the calls that list or change the roles or the details of
  the account \<open>uid\<close>.
\<close>

fun target :: "rpc \<Rightarrow> string option" where
  "target UserListUsers = None"
| "target (UserGetDetails uid) = None"
| "target (UserListRoles uid) = None"
| "target (UserRemoveRole uid r) = Some uid"
| "target (UserAddRole uid r) = Some uid"
| "target (UserCreate uid n s e) = Some uid"
| "target (UserSetDetails uid n s e) = Some uid"
| "target (UserUsePamAuthentication uid) = Some uid"
| "target (UserDelete uid) = Some uid"

definition writeTargets :: "rpc list \<Rightarrow> string list" where
  "writeTargets cs = List.map_filter target cs"

definition createdUids :: "rpc list \<Rightarrow> string list" where
  "createdUids cs =
     List.map_filter (\<lambda>c. case c of UserCreate uid n s e \<Rightarrow> Some uid | _ \<Rightarrow> None) cs"

definition deletedUids :: "rpc list \<Rightarrow> string list" where
  "deletedUids cs = List.map_filter (\<lambda>c. case c of UserDelete uid \<Rightarrow> Some uid | _ \<Rightarrow> None) cs"

fun updates :: "string \<Rightarrow> rpc \<Rightarrow> bool" where
  "updates uid (UserListRoles u) = (u = uid)"
| "updates uid (UserRemoveRole u r) = (u = uid)"
| "updates uid (UserAddRole u r) = (u = uid)"
| "updates uid (UserSetDetails u n s e) = (u = uid)"
| "updates uid (UserUsePamAuthentication u) = (u = uid)"
| "updates uid UserListUsers = False"
| "updates uid (UserGetDetails u) = False"
| "updates uid (UserCreate u n s e) = False"
| "updates uid (UserDelete u) = False"

text \<open>
  The state a step leaves behind, whether it returned or ended the process, and the
  calls made between two states of a run.
\<close>

definition stateOf :: "('s, 'a) exits \<Rightarrow> ('a \<Rightarrow> 's LDAPSync) \<Rightarrow> 's LDAPSync" where
  "stateOf r f = (case r of Inl (_, sync) \<Rightarrow> sync | Inr a \<Rightarrow> f a)"

definition since :: "'s LDAPSync \<Rightarrow> 's LDAPSync \<Rightarrow> rpc list" where
  "since sync sync' = drop (length (trace (uc sync))) (trace (uc sync'))"

text \<open>
  Three ways two states of a run can be related. \<^verbatim>\<open>said sync sync' cs\<close>: the
  program made exactly the remote calls \<open>cs\<close>, and nothing but the caller and the error
  log differs. \<^verbatim>\<open>heard sync sync' cs\<close>: it made exactly the calls \<open>cs\<close> and left the
  configuration alone (the user lists and the connection may differ).
  \<^verbatim>\<open>quiet sync sync'\<close>: it made no remote call and left the configuration, the
  connection and the destination users alone (a step that only reads the directory).
\<close>

definition said :: "'s LDAPSync \<Rightarrow> 's LDAPSync \<Rightarrow> rpc list \<Rightarrow> bool" where
  "said sync sync' cs \<longleftrightarrow>
     lc sync' = lc sync \<and> cr sync' = cr sync \<and> ldapusers sync' = ldapusers sync \<and>
     uyuniusers sync' = uyuniusers sync \<and> allldapusers sync' = allldapusers sync \<and>
     roleConfigs sync' = roleConfigs sync \<and> remote (uc sync') = remote (uc sync) \<and>
     trace (uc sync') = trace (uc sync) @ cs"

definition heard :: "'s LDAPSync \<Rightarrow> 's LDAPSync \<Rightarrow> rpc list \<Rightarrow> bool" where
  "heard sync sync' cs \<longleftrightarrow>
     cr sync' = cr sync \<and> remote (uc sync') = remote (uc sync) \<and>
     trace (uc sync') = trace (uc sync) @ cs"

definition quiet :: "'s LDAPSync \<Rightarrow> 's LDAPSync \<Rightarrow> bool" where
  "quiet sync sync' \<longleftrightarrow>
     uc sync' = uc sync \<and> cr sync' = cr sync \<and> lc sync' = lc sync \<and>
     roleConfigs sync' = roleConfigs sync \<and> uyuniusers sync' = uyuniusers sync"

text \<open>
  \<^verbatim>\<open>unfrozen\<close>: no user of the list has a frozen uid. \<^verbatim>\<open>listsRole\<close>: a reply that
  lists a role. \<^verbatim>\<open>lockedOut\<close>: at the destination's present state no frozen uid holds
  the role \<^verbatim>\<open>org_admin\<close>: the listing of its roles is a read (it leaves the
  destination as it is) and is answered with an error or without that role.
\<close>

definition unfrozen :: "string list \<Rightarrow> UyuniUser list \<Rightarrow> bool" where
  "unfrozen frozen users = list_all (\<lambda>u. Uid u \<notin> set frozen) users"

definition listsRole :: "string + xval \<Rightarrow> string \<Rightarrow> bool" where
  "listsRole res r = (case res of Inr (XArray rs) \<Rightarrow> XString r \<in> set rs | _ \<Rightarrow> False)"

definition lockedOut :: "'s LDAPSync \<Rightarrow> bool" where
  "lockedOut sync \<longleftrightarrow>
     (\<forall>uid \<in> set (Frozen (cr sync)).
        case remote (uc sync) (server (uc sync)) (UserListRoles uid) of
          (res, s') \<Rightarrow> s' = server (uc sync) \<and> \<not> listsRole res ''org_admin'')"

text \<open>
  A destination whose answers to \<^verbatim>\<open>user.listRoles\<close> have the shape the program asserts
  on them (an array of strings), whatever its state.
\<close>

definition isStringArray :: "xval \<Rightarrow> bool" where
  "isStringArray v = (case v of XArray vs \<Rightarrow> list_all (\<lambda>x. case x of XString _ \<Rightarrow> True | _ \<Rightarrow> False) vs
                      | _ \<Rightarrow> False)"

definition listsRolesAsStrings :: "('s \<Rightarrow> rpc \<Rightarrow> (string + xval) \<times> 's) \<Rightarrow> bool" where
  "listsRolesAsStrings rem \<longleftrightarrow>
     (\<forall>s uid. case fst (rem s (UserListRoles uid)) of Inl _ \<Rightarrow> True | Inr v \<Rightarrow> isStringArray v)"


text \<open>
  The attribute mapper as the spec words it: \<^verbatim>\<open>resolve(baseDN, canonicalName)\<close> "looks
  up baseDN in the AttributeMap; if present and the canonical name has an override,
  returns the override, else returns canonicalName unchanged".
\<close>

definition spec_resolve :: "(string \<rightharpoonup> (string \<rightharpoonup> string)) \<Rightarrow> string \<Rightarrow> string \<Rightarrow> string" where
  "spec_resolve attrmap baseDN canonicalName =
     (case attrmap baseDN of
        None \<Rightarrow> canonicalName
      | Some overrides \<Rightarrow>
          (case overrides canonicalName of None \<Rightarrow> canonicalName | Some a \<Rightarrow> a))"

text \<open>
  The role sources of a run, one per mapping entry: the filter and the member attribute
  of the search configuration, the DN of the group or role, and the destination roles
  it grants. \<^verbatim>\<open>occupies\<close> says that an entry found under that DN names the user's DN
  in the member attribute; \<^verbatim>\<open>grant\<close> is what one source grants to a user DN,
  \<^verbatim>\<open>grantedRoles\<close> what all of them grant, source by source; \<^verbatim>\<open>searchable\<close> says
  that every source can be searched.
\<close>

definition roleSources :: "SearchConfig list \<Rightarrow> (string \<times> string \<times> string \<times> string list) list" where
  "roleSources cfgs =
     concat (map (\<lambda>sc. map (\<lambda>(dn, rs). (filterBy sc, attribute sc, dn, rs)) (config sc)) cfgs)"

definition occupies :: "LDAPCaller \<Rightarrow> string \<Rightarrow> string \<Rightarrow> string \<Rightarrow> string \<Rightarrow> bool" where
  "occupies c udn flt attr dn =
     (case Search c (NewSearchRequest dn flt) of
        Inl _ \<Rightarrow> False
      | Inr entries \<Rightarrow> \<exists>entry \<in> set entries. udn \<in> set (GetAttributeValues entry attr))"

definition grant ::
  "LDAPCaller \<Rightarrow> string \<Rightarrow> string \<times> string \<times> string \<times> string list \<Rightarrow> string list" where
  "grant c udn src =
     (case src of (flt, attr, dn, rs) \<Rightarrow> if occupies c udn flt attr dn then rs else [])"

definition grantedRoles ::
  "LDAPCaller \<Rightarrow> string \<Rightarrow> (string \<times> string \<times> string \<times> string list) list \<Rightarrow> string list" where
  "grantedRoles c udn srcs = concat (map (grant c udn) srcs)"

definition searchable :: "LDAPCaller \<Rightarrow> (string \<times> string \<times> string \<times> string list) list \<Rightarrow> bool" where
  "searchable c srcs =
     list_all (\<lambda>(flt, attr, dn, rs). isl (Search c (NewSearchRequest dn flt)) = False) srcs"

section \<open>A reference destination\<close>

text \<open>
  The destination is outside the program. Where a statement is about the accounts a run
  leaves behind, it is made for this account store: each call does what its name says
  in the destination's user namespace, and a call on a login that the store does not
  have (or a creation of one it has) is answered with an error.
\<close>

record Account =
  acc_login :: string
  acc_first :: string
  acc_last :: string
  acc_email :: string
  acc_roles :: "string list"
  acc_pam :: bool

definition known :: "Account list \<Rightarrow> string \<Rightarrow> bool" where
  "known accs uid = (uid \<in> set (map acc_login accs))"

definition change :: "(Account \<Rightarrow> Account) \<Rightarrow> string \<Rightarrow> Account list \<Rightarrow> Account list" where
  "change f uid accs = map (\<lambda>a. if acc_login a = uid then f a else a) accs"

definition rolesOf :: "Account list \<Rightarrow> string \<Rightarrow> string list" where
  "rolesOf accs uid =
     (case find (\<lambda>a. acc_login a = uid) accs of None \<Rightarrow> [] | Some a \<Rightarrow> acc_roles a)"

definition answer :: "bool \<Rightarrow> xval \<Rightarrow> Account list \<Rightarrow> (string + xval) \<times> Account list" where
  "answer ok v accs = (if ok then (Inr v, accs) else (Inl ''no such user'', accs))"

fun uyuniServer :: "Account list \<Rightarrow> rpc \<Rightarrow> (string + xval) \<times> Account list" where
  "uyuniServer accs UserListUsers =
     (Inr (XArray (map (\<lambda>a. XStruct [(''login'', XString (acc_login a))]) accs)), accs)"
| "uyuniServer accs (UserGetDetails uid) =
     (case find (\<lambda>a. acc_login a = uid) accs of
        None \<Rightarrow> (Inl ''no such user'', accs)
      | Some a \<Rightarrow>
          (Inr (XStruct [(''first_name'', XString (acc_first a)),
                         (''last_name'', XString (acc_last a)),
                         (''email'', XString (acc_email a))]), accs))"
| "uyuniServer accs (UserListRoles uid) =
     answer (known accs uid) (XArray (map XString (rolesOf accs uid))) accs"
| "uyuniServer accs (UserRemoveRole uid r) =
     answer (known accs uid) (XInt 1)
       (change (\<lambda>a. a\<lparr>acc_roles := removeAll r (acc_roles a)\<rparr>) uid accs)"
| "uyuniServer accs (UserAddRole uid r) =
     answer (known accs uid) (XInt 1)
       (change (\<lambda>a. a\<lparr>acc_roles := List.insert r (acc_roles a)\<rparr>) uid accs)"
| "uyuniServer accs (UserCreate uid n s e) =
     (if known accs uid then (Inl ''login exists'', accs)
      else (Inr (XInt 1),
            accs @ [\<lparr>acc_login = uid, acc_first = n, acc_last = s, acc_email = e,
                     acc_roles = [], acc_pam = True\<rparr>]))"
| "uyuniServer accs (UserSetDetails uid n s e) =
     answer (known accs uid) (XInt 1)
       (change (\<lambda>a. a\<lparr>acc_first := n, acc_last := s, acc_email := e\<rparr>) uid accs)"
| "uyuniServer accs (UserUsePamAuthentication uid) =
     answer (known accs uid) (XInt 1) (change (\<lambda>a. a\<lparr>acc_pam := True\<rparr>) uid accs)"
| "uyuniServer accs (UserDelete uid) =
     answer (known accs uid) (XInt 1) (filter (\<lambda>a. acc_login a \<noteq> uid) accs)"

definition referenceCaller :: "Account list \<Rightarrow> Account list UyuniCaller" where
  "referenceCaller accs = \<lparr>remote = uyuniServer, server = accs, trace = []\<rparr>"

section \<open>A small directory and destination\<close>

text \<open>
  One concrete world, used to run the definitions: four people under the all-users
  base, three role sources, a member DN that matches no entry, an attribute override
  registered under a person's DN, and a destination with three accounts.
\<close>

definition aliceEntry :: Entry where
  "aliceEntry = \<lparr>DN = ''cn=alice,ou=Users,dc=x'',
     Attributes = [(''uid'', [''alice'']), (''login'', [''aadams'']), (''mail'', [''alice@x'']), (''cn'', [''Alice Adams''])]\<rparr>"

definition bobEntry :: Entry where
  "bobEntry = \<lparr>DN = ''cn=bob,ou=Users,dc=x'',
     Attributes = [(''uid'', [''bob'']), (''mail'', [''bob@x'']), (''cn'', [''Bob Brown''])]\<rparr>"

definition carolEntry :: Entry where
  "carolEntry = \<lparr>DN = ''cn=carol,ou=Users,dc=x'',
     Attributes = [(''uid'', [''carol'']), (''mail'', [''carol@x'']), (''cn'', [''Carol'']),
                   (''givenName'', [''Carol'']), (''sn'', [''Clark''])]\<rparr>"

definition adminEntry :: Entry where
  "adminEntry = \<lparr>DN = ''cn=administrator,ou=Users,dc=x'',
     Attributes = [(''uid'', [''administrator'']), (''mail'', [''root@x'']), (''cn'', [''Site Admin''])]\<rparr>"

definition exampleTree :: "(string \<times> Entry list) list" where
  "exampleTree =
     [(''ou=Users,dc=x'', [aliceEntry, bobEntry, carolEntry, adminEntry]),
      (''cn=alice,ou=Users,dc=x'', [aliceEntry]),
      (''cn=bob,ou=Users,dc=x'', [bobEntry]),
      (''cn=carol,ou=Users,dc=x'', [carolEntry]),
      (''cn=administrator,ou=Users,dc=x'', [adminEntry]),
      (''cn=org_admin,ou=Groups,dc=x'',
         [\<lparr>DN = ''cn=org_admin,ou=Groups,dc=x'',
           Attributes = [(''member'', [''cn=alice,ou=Users,dc=x'', ''cn=carol,ou=Users,dc=x'',
                                       ''cn=administrator,ou=Users,dc=x'',
                                       ''cn=ghost,ou=Users,dc=x''])]\<rparr>]),
      (''cn=sysop,ou=Groups,dc=x'',
         [\<lparr>DN = ''cn=sysop,ou=Groups,dc=x'',
           Attributes = [(''member'', [''cn=alice,ou=Users,dc=x''])]\<rparr>]),
      (''cn=root,ou=Groups,dc=x'',
         [\<lparr>DN = ''cn=root,ou=Groups,dc=x'',
           Attributes = [(''roleOccupant'', [''cn=carol,ou=Users,dc=x''])]\<rparr>])]"

definition entriesUnder :: "string \<Rightarrow> Entry list" where
  "entriesUnder dn = (case map_of exampleTree dn of None \<Rightarrow> [] | Some entries \<Rightarrow> entries)"

definition exampleConn :: Conn where
  "exampleConn request = Inr (entriesUnder (BaseDN request))"

definition exampleConfig :: Directory where
  "exampleConfig =
     \<lparr>User = ''uid=sync,ou=system'', Password = ''secret'', Host = ''ldap.example.com'', Port = 10389,
      Frozen = [''administrator''],
      Groups = [(''cn=org_admin,ou=Groups,dc=x'', [''org_admin'']),
                (''cn=sysop,ou=Groups,dc=x'', [''channel_admin'', ''org_admin''])],
      Roles = [(''cn=root,ou=Groups,dc=x'', [''satellite_admin''])],
      Attrmap = [''cn=alice,ou=Users,dc=x'' \<mapsto> [''uid'' \<mapsto> ''login'']],
      Allusers = ''ou=Users,dc=x''\<rparr>"

definition exampleAccounts :: "Account list" where
  "exampleAccounts =
     [\<lparr>acc_login = ''administrator'', acc_first = ''Site'', acc_last = ''Admin'', acc_email = ''root@x'',
       acc_roles = [''org_admin''], acc_pam = False\<rparr>,
      \<lparr>acc_login = ''bob'', acc_first = ''Bob'', acc_last = ''Brown'', acc_email = ''bob@x'',
       acc_roles = [''channel_admin''], acc_pam = True\<rparr>,
      \<lparr>acc_login = ''carol'', acc_first = ''Carol'', acc_last = ''Clark'', acc_email = ''carol@x'',
       acc_roles = [''channel_admin''], acc_pam = True\<rparr>]"

definition exampleDial :: "string \<Rightarrow> string \<Rightarrow> int \<Rightarrow> string + Conn" where
  "exampleDial proto hst prt = Inr exampleConn"

definition exampleSync :: "Account list LDAPSync" where
  "exampleSync = NewLDAPSync exampleConfig (referenceCaller exampleAccounts)"

definition connectedSync :: "Account list LDAPSync" where
  "connectedSync = exampleSync\<lparr>lc := (lc exampleSync)\<lparr>lc_conn := Some exampleConn\<rparr>\<rparr>"

text \<open>
  The same world with the role sources taken in the opposite order.
\<close>

definition reversedSync :: "Account list LDAPSync" where
  "reversedSync =
     connectedSync\<lparr>roleConfigs :=
       rev (map (\<lambda>sc. sc\<lparr>config := rev (config sc)\<rparr>) (roleConfigs connectedSync))\<rparr>"

text \<open>
  The users of that world as the directory gives them, and its user lists when
  classification begins: the staged users (Alice and Carol, with the roles their
  groups grant), the destination users (Bob and Carol; the frozen administrator is
  left out) and the full directory set.
\<close>

definition aliceUser :: UyuniUser where
  "aliceUser =
     NewUyuniUser\<lparr>Dn := ''cn=alice,ou=Users,dc=x'', Uid := ''alice'', Email := ''alice@x'',
                  Name := ''Alice'', Secondname := ''Adams''\<rparr>"

definition carolUser :: UyuniUser where
  "carolUser =
     NewUyuniUser\<lparr>Dn := ''cn=carol,ou=Users,dc=x'', Uid := ''carol'', Email := ''carol@x'',
                  Name := ''Carol'', Secondname := ''Clark''\<rparr>"

definition bobUser :: UyuniUser where
  "bobUser =
     NewUyuniUser\<lparr>Dn := ''cn=bob,ou=Users,dc=x'', Uid := ''bob'', Email := ''bob@x'',
                  Name := ''Bob'', Secondname := ''Brown''\<rparr>"

definition adminUser :: UyuniUser where
  "adminUser =
     NewUyuniUser\<lparr>Dn := ''cn=administrator,ou=Users,dc=x'', Uid := ''administrator'',
                  Email := ''root@x'', Name := ''Site'', Secondname := ''Admin''\<rparr>"

definition readySync :: "Account list LDAPSync" where
  "readySync =
     connectedSync
       \<lparr>ldapusers := [aliceUser\<lparr>roles := [''org_admin'', ''channel_admin'']\<rparr>,
                      carolUser\<lparr>roles := [''satellite_admin'', ''org_admin'']\<rparr>],
        uyuniusers := [bobUser\<lparr>Dn := [], roles := [''channel_admin'']\<rparr>,
                       carolUser\<lparr>Dn := [], roles := [''channel_admin'']\<rparr>],
        allldapusers := [aliceUser, bobUser, carolUser, adminUser]\<rparr>"

text \<open>
  The same world with two frozen uids, one without an account and one whose account
  has lost the role.
\<close>

definition lockedSync :: "Account list LDAPSync" where
  "lockedSync =
     NewLDAPSync (exampleConfig\<lparr>Frozen := [''administrator'', ''root'']\<rparr>)
       (referenceCaller (map (\<lambda>a. a\<lparr>acc_roles := [''channel_admin'']\<rparr>) exampleAccounts))"





section \<open>Properties of the classification helpers and of the attribute mapper\<close>

lemma in_users_iff: "in_users user users \<longleftrightarrow> Uid user \<in> set (map Uid users)"
  by (induction users) auto

lemma sameAsIn_Inl_iff: "(\<exists>e. snd (sameAsIn user users) = Inl e) \<longleftrightarrow> \<not> in_users user users"
  by (induction users) (auto split: prod.splits)

lemma sameAsIn_found: "in_users user users \<Longrightarrow> \<exists>user' b. sameAsIn user users = (user', Inr b)"
  by (induction users) (auto split: prod.splits)

lemma Split_nonempty: "Split s sep \<noteq> []"
  by (induction s) (auto split: list.splits)

lemma Split_one: "Split s sep = [w] \<longleftrightarrow> (s = w \<and> sep \<notin> set w)"
proof (induction s arbitrary: w)
  case Nil
  then show ?case by auto
next
  case (Cons c cs)
  show ?case
  proof (cases "c = sep")
    case True
    then show ?thesis using Split_nonempty[of cs sep] by auto
  next
    case False
    obtain v vs where sp: "Split cs sep = v # vs"
      using Split_nonempty[of cs sep] by (cases "Split cs sep") auto
    show ?thesis
    proof (cases vs)
      case Nil
      with sp have "cs = v \<and> sep \<notin> set v" using Cons.IH[of v] by simp
      with False sp Nil show ?thesis by auto
    next
      case (Cons x xs)
      with sp have "\<And>w'. \<not> (cs = w' \<and> sep \<notin> set w')" using Cons.IH by auto
      with False sp Cons show ?thesis by auto
    qed
  qed
qed

lemma Split_two: "Split s sep = [a, b] \<longleftrightarrow> (s = a @ sep # b \<and> sep \<notin> set a \<and> sep \<notin> set b)"
proof (induction s arbitrary: a)
  case Nil
  then show ?case by auto
next
  case (Cons c cs)
  show ?case
  proof (cases "c = sep")
    case True
    have "Split (c # cs) sep = [a, b] \<longleftrightarrow> a = [] \<and> Split cs sep = [b]"
      using True by auto
    also have "\<dots> \<longleftrightarrow> a = [] \<and> cs = b \<and> sep \<notin> set b" by (simp add: Split_one)
    also have "\<dots> \<longleftrightarrow> (c # cs = a @ sep # b \<and> sep \<notin> set a \<and> sep \<notin> set b)"
      using True by (cases a) auto
    finally show ?thesis .
  next
    case False
    obtain v vs where sp: "Split cs sep = v # vs"
      using Split_nonempty[of cs sep] by (cases "Split cs sep") auto
    have "Split (c # cs) sep = [a, b] \<longleftrightarrow> (\<exists>a'. a = c # a' \<and> Split cs sep = [a', b])"
      using False sp by auto
    also have "\<dots> \<longleftrightarrow> (\<exists>a'. a = c # a' \<and> cs = a' @ sep # b \<and> sep \<notin> set a' \<and> sep \<notin> set b)"
      using Cons.IH by simp
    also have "\<dots> \<longleftrightarrow> (c # cs = a @ sep # b \<and> sep \<notin> set a \<and> sep \<notin> set b)"
      using False by (cases a) auto
    finally show ?thesis .
  qed
qed

lemma getAttributes_two: "getAttributes entry [a, b] = (if GetAttributeValue entry a \<noteq> [] then GetAttributeValue entry a else GetAttributeValue entry b)"
  by (simp add: Let_def)




text \<open>
  C10. A staged user whose uid the membership test finds in the destination list is
  compared, never reported missing: the comparison returns a verdict and the outdated
  flag is assigned from it.
\<close>

theorem found_user_is_compared:
  assumes "in_users user0 uyuni"
  shows "\<exists>user' isSame.
           sameAsIn (user0\<lparr>new := False\<rparr>) uyuni = (user', Inr isSame) \<and>
           classify user0 uyuni = (user'\<lparr>outdated := \<not> isSame\<rparr>, [])"
proof -
  from assms have "in_users (user0\<lparr>new := False\<rparr>) uyuni"
    by (simp add: in_users_iff)
  then obtain user' b where "sameAsIn (user0\<lparr>new := False\<rparr>) uyuni = (user', Inr b)"
    using sameAsIn_found by blast
  with assms show ?thesis
    by (simp add: classify_def IsNew_def)
qed

theorem found_user_is_compared_witness:
  "in_users (NewUyuniUser\<lparr>Uid := ''carol''\<rparr>) [NewUyuniUser\<lparr>Uid := ''carol'', roles := [''org_admin'']\<rparr>] \<and>
   (\<exists>user' isSame.
      sameAsIn (NewUyuniUser\<lparr>Uid := ''carol'', new := False\<rparr>)
        [NewUyuniUser\<lparr>Uid := ''carol'', roles := [''org_admin'']\<rparr>] = (user', Inr isSame) \<and>
      classify (NewUyuniUser\<lparr>Uid := ''carol''\<rparr>)
        [NewUyuniUser\<lparr>Uid := ''carol'', roles := [''org_admin'']\<rparr>] = (user'\<lparr>outdated := \<not> isSame\<rparr>, []))"
proof -
  have h: "in_users (NewUyuniUser\<lparr>Uid := ''carol''\<rparr>)
             [NewUyuniUser\<lparr>Uid := ''carol'', roles := [''org_admin'']\<rparr>]"
    by (simp add: NewUyuniUser_def)
  from found_user_is_compared[OF h] h show ?thesis by simp
qed

text \<open>
  C7 (as amended). The attribute mapper is the spec's \<^verbatim>\<open>resolve\<close> with the base DN
  fixed to the configured all-users base, whatever DN is being queried: a user built
  from any DN has its uid and email read from the attributes resolved under that base.
  It is a total function: there is no error path.
\<close>

lemma newUserFromDN_single:
  assumes "Search (lc sync) (NewSearchRequest dn ''(objectClass=*)'') = Inr [entry]"
  shows "\<exists>user. newUserFromDN sync dn = Inr (user, sync) \<and>
           Dn user = DN entry \<and>
           Uid user = GetAttributeValue entry (getAttributeNameFor sync ''uid'') \<and>
           Email user = GetAttributeValue entry (getAttributeNameFor sync ''mail'')"
  using assms by (simp add: newUserFromDN_def Let_def split: list.splits)

theorem attribute_names_resolved_under_allusers:
  "getAttributeNameFor sync attr = spec_resolve (Attrmap (cr sync)) (Allusers (cr sync)) attr \<and>
   (Search (lc sync) (NewSearchRequest dn ''(objectClass=*)'') = Inr [entry] \<longrightarrow>
      (\<exists>user. newUserFromDN sync dn = Inr (user, sync) \<and>
         Uid user = GetAttributeValue entry
                      (spec_resolve (Attrmap (cr sync)) (Allusers (cr sync)) ''uid'') \<and>
         Email user = GetAttributeValue entry
                        (spec_resolve (Attrmap (cr sync)) (Allusers (cr sync)) ''mail'')))"
proof -
  have eq: "\<And>a. getAttributeNameFor sync a = spec_resolve (Attrmap (cr sync)) (Allusers (cr sync)) a"
    by (simp add: getAttributeNameFor_def spec_resolve_def split: option.splits)
  show ?thesis
    using newUserFromDN_single[of sync dn entry] by (auto simp: eq)
qed

lemma connected_lc: "lc_conn (lc connectedSync) = Some exampleConn"
  by (simp add: connectedSync_def)

lemma connected_cr: "cr connectedSync = exampleConfig"
  by (simp add: connectedSync_def exampleSync_def NewLDAPSync_def)

lemma search_alice:
  "Search (lc connectedSync) (NewSearchRequest ''cn=alice,ou=Users,dc=x'' ''(objectClass=*)'') = Inr [aliceEntry]"
  by (simp add: Search_def connected_lc exampleConn_def NewSearchRequest_def entriesUnder_def
      exampleTree_def)

lemma search_carol:
  "Search (lc connectedSync) (NewSearchRequest ''cn=carol,ou=Users,dc=x'' ''(objectClass=*)'') = Inr [carolEntry]"
  by (simp add: Search_def connected_lc exampleConn_def NewSearchRequest_def entriesUnder_def
      exampleTree_def)

lemma search_ghost:
  "Search (lc connectedSync) (NewSearchRequest ''cn=ghost,ou=Users,dc=x'' ''(objectClass=*)'') = Inr []"
  by (simp add: Search_def connected_lc exampleConn_def NewSearchRequest_def entriesUnder_def
      exampleTree_def)

theorem attribute_names_resolved_under_allusers_witness:
  "Search (lc connectedSync) (NewSearchRequest ''cn=alice,ou=Users,dc=x'' ''(objectClass=*)'') = Inr [aliceEntry] \<and>
   (\<exists>user. newUserFromDN connectedSync ''cn=alice,ou=Users,dc=x'' = Inr (user, connectedSync) \<and>
      Uid user = ''alice'' \<and> Email user = ''alice@x'')"
  using attribute_names_resolved_under_allusers[of connectedSync "''uid''" "''cn=alice,ou=Users,dc=x''" aliceEntry]
    search_alice
  by (simp add: spec_resolve_def connected_cr exampleConfig_def GetAttributeValue_def
      GetAttributeValues_def aliceEntry_def)

text \<open>
  C7 as stated fails: an override registered under the DN that is being queried is not
  consulted. The uid of the user built from that DN is read from the attribute \<^verbatim>\<open>uid\<close>,
  not from the attribute the spec's \<^verbatim>\<open>resolve\<close> gives for the queried DN.
\<close>

theorem resolution_not_scoped_by_queried_dn:
  "Uid (fst (projr (newUserFromDN connectedSync ''cn=alice,ou=Users,dc=x''))) = ''alice'' \<and>
   GetAttributeValue aliceEntry
     (spec_resolve (Attrmap (cr connectedSync)) ''cn=alice,ou=Users,dc=x'' ''uid'') = ''aadams'' \<and>
   getAttributeNameFor connectedSync ''uid''
     \<noteq> spec_resolve (Attrmap (cr connectedSync)) ''cn=alice,ou=Users,dc=x'' ''uid''"
proof -
  obtain user where u: "newUserFromDN connectedSync ''cn=alice,ou=Users,dc=x'' = Inr (user, connectedSync)"
    and uid: "Uid user = GetAttributeValue aliceEntry (getAttributeNameFor connectedSync ''uid'')"
    using newUserFromDN_single[OF search_alice] by blast
  have n: "getAttributeNameFor connectedSync ''uid'' = ''uid''"
    by (simp add: getAttributeNameFor_def connected_cr exampleConfig_def)
  have r: "spec_resolve (Attrmap (cr connectedSync)) ''cn=alice,ou=Users,dc=x'' ''uid'' = ''login''"
    by (simp add: spec_resolve_def connected_cr exampleConfig_def)
  show ?thesis
    by (simp add: u uid n r GetAttributeValue_def GetAttributeValues_def aliceEntry_def)
qed

section \<open>Role resolution\<close>

lemma set_foldl_addRole: "set (foldl addRole acc rs) = set acc \<union> set rs"
  by (induction rs arbitrary: acc) (auto simp: addRole_def)

lemma distinct_foldl_addRole: "distinct acc \<Longrightarrow> distinct (foldl addRole acc rs)"
  by (induction rs arbitrary: acc) (auto simp: addRole_def)

lemma AddRoles_roles: "set (roles (AddRoles rs u)) = set (roles u) \<union> set rs"
  by (simp add: AddRoles_def set_foldl_addRole)

lemma AddRoles_distinct: "distinct (roles u) \<Longrightarrow> distinct (roles (AddRoles rs u))"
  by (simp add: AddRoles_def distinct_foldl_addRole)

lemma AddRoles_Dn: "Dn (AddRoles rs u) = Dn u"
  by (simp add: AddRoles_def)

lemma AddRoles_Uid: "Uid (AddRoles rs u) = Uid u"
  by (simp add: AddRoles_def)

lemma mergeValues_props:
  "Dn (mergeValues R usr vals) = Dn usr \<and> Uid (mergeValues R usr vals) = Uid usr \<and>
   set (roles (mergeValues R usr vals)) = set (roles usr) \<union> (if Dn usr \<in> set vals then set R else {}) \<and>
   (distinct (roles usr) \<longrightarrow> distinct (roles (mergeValues R usr vals)))"
  unfolding mergeValues_def
  by (induction vals arbitrary: usr) (auto simp: AddRoles_roles AddRoles_distinct AddRoles_Dn AddRoles_Uid)

lemma mergeEntries_props:
  "Dn (foldl (\<lambda>usr entry. mergeValues R usr (GetAttributeValues entry attr)) usr entries) = Dn usr \<and>
   Uid (foldl (\<lambda>usr entry. mergeValues R usr (GetAttributeValues entry attr)) usr entries) = Uid usr \<and>
   set (roles (foldl (\<lambda>usr entry. mergeValues R usr (GetAttributeValues entry attr)) usr entries))
     = set (roles usr) \<union> (if \<exists>entry \<in> set entries. Dn usr \<in> set (GetAttributeValues entry attr) then set R else {}) \<and>
   (distinct (roles usr) \<longrightarrow>
      distinct (roles (foldl (\<lambda>usr entry. mergeValues R usr (GetAttributeValues entry attr)) usr entries)))"
proof (induction entries arbitrary: usr)
  case Nil
  then show ?case by simp
next
  case (Cons e es)
  show ?case
    using Cons.IH[of "mergeValues R usr (GetAttributeValues e attr)"]
      mergeValues_props[of R usr "GetAttributeValues e attr"]
    by auto
qed

lemma mergeRolesByAttributes_Inr:
  assumes "mergeRolesByAttributes sync dn user flt attr R = Inr user'"
  shows "Dn user' = Dn user \<and> Uid user' = Uid user \<and>
         set (roles user') = set (roles user) \<union> (if occupies (lc sync) (Dn user) flt attr dn then set R else {}) \<and>
         (distinct (roles user) \<longrightarrow> distinct (roles user'))"
proof -
  from assms obtain entries where s: "Search (lc sync) (NewSearchRequest dn flt) = Inr entries"
    and u: "user' = foldl (\<lambda>usr entry. mergeValues R usr (GetAttributeValues entry attr)) user entries"
    by (auto simp: mergeRolesByAttributes_def split: sum.splits)
  show ?thesis
    using mergeEntries_props[of R attr user entries] by (simp add: u occupies_def s)
qed

lemma mergeRolesByAttributes_returns:
  "(\<exists>user'. mergeRolesByAttributes sync dn user flt attr R = Inr user') \<longleftrightarrow>
     isl (Search (lc sync) (NewSearchRequest dn flt)) = False"
  by (auto simp: mergeRolesByAttributes_def split: sum.splits)


lemma grantedRoles_set:
  "set (grantedRoles c udn srcs) = (\<Union>src \<in> set srcs. set (grant c udn src))"
  by (simp add: grantedRoles_def)

lemma mergeLoop_Inr:
  assumes "mergeLoop sync sc entries user = Inr user'"
  shows "Dn user' = Dn user \<and> Uid user' = Uid user \<and>
         set (roles user') = set (roles user) \<union>
            set (grantedRoles (lc sync) (Dn user) (map (\<lambda>(dn, rs). (filterBy sc, attribute sc, dn, rs)) entries)) \<and>
         (distinct (roles user) \<longrightarrow> distinct (roles user'))"
  using assms
proof (induction entries arbitrary: user)
  case Nil
  then show ?case by (simp add: grantedRoles_def)
next
  case (Cons e es)
  obtain dn R where e: "e = (dn, R)" by (cases e)
  from Cons.prems obtain u1 where
    m: "mergeRolesByAttributes sync dn user (filterBy sc) (attribute sc) R = Inr u1"
    and r: "mergeLoop sync sc es u1 = Inr user'"
    by (auto simp: e split: sum.splits)
  from mergeRolesByAttributes_Inr[OF m] Cons.IH[OF r] show ?case
    by (auto simp: e grantedRoles_def grant_def)
qed

lemma mergeLoop_returns:
  "(\<exists>user'. mergeLoop sync sc entries user = Inr user') \<longleftrightarrow>
     searchable (lc sync) (map (\<lambda>(dn, rs). (filterBy sc, attribute sc, dn, rs)) entries)"
proof (induction entries arbitrary: user)
  case Nil
  then show ?case by (simp add: searchable_def)
next
  case (Cons e es)
  obtain dn R where e: "e = (dn, R)" by (cases e)
  show ?case
  proof (cases "mergeRolesByAttributes sync dn user (filterBy sc) (attribute sc) R")
    case (Inl x)
    then have "isl (Search (lc sync) (NewSearchRequest dn (filterBy sc)))"
      using mergeRolesByAttributes_returns[of sync dn user "filterBy sc" "attribute sc" R] by auto
    with Inl show ?thesis by (simp add: e searchable_def)
  next
    case (Inr u1)
    then have "\<not> isl (Search (lc sync) (NewSearchRequest dn (filterBy sc)))"
      using mergeRolesByAttributes_returns[of sync dn user "filterBy sc" "attribute sc" R] by auto
    with Inr Cons.IH[of u1] show ?thesis by (simp add: e searchable_def)
  qed
qed

lemma roleConfigsLoop_Inr:
  assumes "roleConfigsLoop sync cfgs user = Inr user'"
  shows "Dn user' = Dn user \<and> Uid user' = Uid user \<and>
         set (roles user') = set (roles user) \<union> set (grantedRoles (lc sync) (Dn user) (roleSources cfgs)) \<and>
         (distinct (roles user) \<longrightarrow> distinct (roles user'))"
  using assms
proof (induction cfgs arbitrary: user)
  case Nil
  then show ?case by (simp add: grantedRoles_def roleSources_def)
next
  case (Cons sc rest)
  from Cons.prems obtain u1 where
    m: "mergeLoop sync sc (config sc) user = Inr u1" and r: "roleConfigsLoop sync rest u1 = Inr user'"
    by (auto split: sum.splits)
  from mergeLoop_Inr[OF m] Cons.IH[OF r] show ?case
    by (auto simp: grantedRoles_def roleSources_def)
qed

lemma roleConfigsLoop_returns:
  "(\<exists>user'. roleConfigsLoop sync cfgs user = Inr user') \<longleftrightarrow> searchable (lc sync) (roleSources cfgs)"
proof (induction cfgs arbitrary: user)
  case Nil
  then show ?case by (simp add: searchable_def roleSources_def)
next
  case (Cons sc rest)
  show ?case
  proof (cases "mergeLoop sync sc (config sc) user")
    case (Inl x)
    then have "\<not> searchable (lc sync) (map (\<lambda>(dn, rs). (filterBy sc, attribute sc, dn, rs)) (config sc))"
      using mergeLoop_returns[of sync sc "config sc" user] by auto
    with Inl show ?thesis by (simp add: searchable_def roleSources_def)
  next
    case (Inr u1)
    then have "searchable (lc sync) (map (\<lambda>(dn, rs). (filterBy sc, attribute sc, dn, rs)) (config sc))"
      using mergeLoop_returns[of sync sc "config sc" user] by auto
    with Inr Cons.IH[of u1] show ?thesis by (simp add: searchable_def roleSources_def)
  qed
qed

lemma searchable_set: "set srcs' = set srcs \<Longrightarrow> searchable c srcs' = searchable c srcs"
  by (simp add: searchable_def list_all_iff)

lemma grantedRoles_cong: "set srcs' = set srcs \<Longrightarrow> set (grantedRoles c udn srcs') = set (grantedRoles c udn srcs)"
  by (simp add: grantedRoles_set)

text \<open>
  C6. Role resolution is a union over the role sources. The roles of the user after
  \<^verbatim>\<open>updateLDAPUserRoles\<close> are, as a set, the roles it had and the roles of every source
  under which an entry names the user's DN; each role is held once. Taking the same
  sources in any other order (any configuration with the same set of sources, against the
  same directory) returns as well, with the same role set.
\<close>

theorem role_resolution_is_a_union:
  assumes "updateLDAPUserRoles sync user = Inr u1"
    and "lc sync' = lc sync"
    and "set (roleSources (roleConfigs sync')) = set (roleSources (roleConfigs sync))"
    and "distinct (GetRoles user)"
  shows "set (GetRoles u1) =
           set (GetRoles user) \<union> set (grantedRoles (lc sync) (Dn user) (roleSources (roleConfigs sync))) \<and>
         distinct (GetRoles u1) \<and>
         (\<exists>u2. updateLDAPUserRoles sync' user = Inr u2 \<and>
               set (GetRoles u2) = set (GetRoles u1) \<and> distinct (GetRoles u2))"
proof -
  from assms(1) have r1: "roleConfigsLoop sync (roleConfigs sync) user = Inr u1"
    by (simp add: updateLDAPUserRoles_def)
  then have "searchable (lc sync) (roleSources (roleConfigs sync))"
    using roleConfigsLoop_returns[of sync "roleConfigs sync" user] by auto
  then have "searchable (lc sync') (roleSources (roleConfigs sync'))"
    using searchable_set[OF assms(3)] assms(2) by simp
  then obtain u2 where r2: "roleConfigsLoop sync' (roleConfigs sync') user = Inr u2"
    using roleConfigsLoop_returns[of sync' "roleConfigs sync'" user] by auto
  from roleConfigsLoop_Inr[OF r1] roleConfigsLoop_Inr[OF r2] grantedRoles_cong[OF assms(3)] assms(2,4)
  show ?thesis
    by (simp add: GetRoles_def updateLDAPUserRoles_def r2)
qed


lemma reversed_lc: "lc reversedSync = lc connectedSync"
  by (simp add: reversedSync_def)

lemma connected_roleConfigs:
  "roleConfigs connectedSync =
     [\<lparr>config = [(''cn=root,ou=Groups,dc=x'', [''satellite_admin''])],
       filterBy = ''(objectClass=organizationalRole)'', attribute = ''roleOccupant''\<rparr>,
      \<lparr>config = [(''cn=org_admin,ou=Groups,dc=x'', [''org_admin'']),
                 (''cn=sysop,ou=Groups,dc=x'', [''channel_admin'', ''org_admin''])],
       filterBy = ''(|(objectClass=groupOfNames)(objectClass=group))'', attribute = ''member''\<rparr>]"
  by (simp add: connectedSync_def exampleSync_def NewLDAPSync_def exampleConfig_def)

lemma connected_search:
  "Search (lc connectedSync) (NewSearchRequest dn flt) = Inr (entriesUnder dn)"
  by (simp add: Search_def connected_lc NewSearchRequest_def exampleConn_def)

lemma reversed_roleConfigs:
  "roleConfigs reversedSync =
     [\<lparr>config = [(''cn=sysop,ou=Groups,dc=x'', [''channel_admin'', ''org_admin'']),
                 (''cn=org_admin,ou=Groups,dc=x'', [''org_admin''])],
       filterBy = ''(|(objectClass=groupOfNames)(objectClass=group))'', attribute = ''member''\<rparr>,
      \<lparr>config = [(''cn=root,ou=Groups,dc=x'', [''satellite_admin''])],
       filterBy = ''(objectClass=organizationalRole)'', attribute = ''roleOccupant''\<rparr>]"
  by (simp add: reversedSync_def connected_roleConfigs)

lemma example_roles_alice:
  "updateLDAPUserRoles connectedSync aliceUser
     = Inr (aliceUser\<lparr>roles := [''org_admin'', ''channel_admin'']\<rparr>)"
  by (simp add: updateLDAPUserRoles_def connected_roleConfigs mergeRolesByAttributes_def
        connected_search entriesUnder_def exampleTree_def mergeValues_def GetAttributeValues_def
        aliceUser_def NewUyuniUser_def AddRoles_def addRole_def)

lemma example_sources:
  "set (roleSources (roleConfigs reversedSync)) = set (roleSources (roleConfigs connectedSync))"
  unfolding roleSources_def reversed_roleConfigs connected_roleConfigs
  by (simp add: insert_commute)

theorem role_resolution_is_a_union_witness:
  "updateLDAPUserRoles connectedSync aliceUser
     = Inr (aliceUser\<lparr>roles := [''org_admin'', ''channel_admin'']\<rparr>) \<and>
   (\<exists>u2. updateLDAPUserRoles reversedSync aliceUser = Inr u2 \<and>
      set (GetRoles u2) = {''org_admin'', ''channel_admin''} \<and> distinct (GetRoles u2))"
proof -
  have d: "distinct (GetRoles aliceUser)"
    by (simp add: GetRoles_def aliceUser_def NewUyuniUser_def)
  from role_resolution_is_a_union[OF example_roles_alice reversed_lc example_sources d]
  obtain u2 where "updateLDAPUserRoles reversedSync aliceUser = Inr u2"
    and "set (GetRoles u2) = set (GetRoles (aliceUser\<lparr>roles := [''org_admin'', ''channel_admin'']\<rparr>))"
    and "distinct (GetRoles u2)"
    by auto
  then show ?thesis
    by (simp add: example_roles_alice GetRoles_def)
qed

section \<open>Users built from a DN\<close>

text \<open>
  C8 (as amended). When the search under the DN returns no entry or more than one,
  \<^verbatim>\<open>newUserFromDN\<close> logs one error line and returns a user with every field empty,
  the DN included; the run goes on, and the staged set leaves the user out (its uid is
  empty): the loop continues with the remaining DNs.
\<close>

theorem unmatched_dn_gives_empty_user:
  assumes "Search (lc sync) (NewSearchRequest dn ''(objectClass=*)'') = Inr entries"
    and "length entries \<noteq> 1"
  shows "newUserFromDN sync dn = Inr (NewUyuniUser, Errorf (ErrAmbiguousDN dn) sync) \<and>
         errors (Errorf (ErrAmbiguousDN dn) sync) = errors sync @ [ErrAmbiguousDN dn] \<and>
         Dn NewUyuniUser = [] \<and> Uid NewUyuniUser = [] \<and> Email NewUyuniUser = [] \<and>
         Name NewUyuniUser = [] \<and> Secondname NewUyuniUser = [] \<and> GetRoles NewUyuniUser = [] \<and>
         stagedLoop sync (dn # udns) = stagedLoop (Errorf (ErrAmbiguousDN dn) sync) udns"
proof -
  from assms have n: "newUserFromDN sync dn = Inr (NewUyuniUser, Errorf (ErrAmbiguousDN dn) sync)"
    by (cases entries; cases "tl entries") (auto simp: newUserFromDN_def Let_def)
  show ?thesis
    by (simp add: n) (simp add: NewUyuniUser_def GetRoles_def Errorf_def)
qed


theorem unmatched_dn_gives_empty_user_witness:
  "newUserFromDN connectedSync ''cn=ghost,ou=Users,dc=x''
     = Inr (NewUyuniUser, Errorf (ErrAmbiguousDN ''cn=ghost,ou=Users,dc=x'') connectedSync) \<and>
   stagedLoop connectedSync [''cn=ghost,ou=Users,dc=x'']
     = Inr (Errorf (ErrAmbiguousDN ''cn=ghost,ou=Users,dc=x'') connectedSync)"
  using unmatched_dn_gives_empty_user[OF search_ghost, of "[]"] by simp


text \<open>
  C8 as stated fails: the user returned for a DN that matches no entry does not carry
  that DN.
\<close>

theorem unmatched_dn_user_has_no_dn:
  "newUserFromDN connectedSync ''cn=ghost,ou=Users,dc=x''
     = Inr (NewUyuniUser, Errorf (ErrAmbiguousDN ''cn=ghost,ou=Users,dc=x'') connectedSync) \<and>
   Dn NewUyuniUser \<noteq> ''cn=ghost,ou=Users,dc=x''"
  by (simp add: newUserFromDN_def search_ghost NewUyuniUser_def)

lemma length_two_iff: "length xs = 2 \<longleftrightarrow> (\<exists>a b. xs = [a, b])"
  by (cases xs; cases "tl xs") (auto simp: numeral_2_eq_2)

lemma names_split:
  assumes "Search (lc sync) (NewSearchRequest dn ''(objectClass=*)'') = Inr [entry]"
    and "Split (GetAttributeValue entry ''cn'') CHR '' '' = [given, family]"
  shows "\<exists>user. newUserFromDN sync dn = Inr (user, sync) \<and> Name user = given \<and> Secondname user = family"
  using assms by (simp add: newUserFromDN_def Let_def)

lemma names_fallback:
  assumes "Search (lc sync) (NewSearchRequest dn ''(objectClass=*)'') = Inr [entry]"
    and "length (Split (GetAttributeValue entry ''cn'') CHR '' '') \<noteq> 2"
  shows "\<exists>user. newUserFromDN sync dn = Inr (user, sync) \<and>
           Name user = getAttributes entry [getAttributeNameFor sync ''name'', getAttributeNameFor sync ''givenName''] \<and>
           Secondname user = GetAttributeValue entry (getAttributeNameFor sync ''sn'')"
proof -
  from assms(2) have "\<And>a b. Split (GetAttributeValue entry ''cn'') CHR '' '' \<noteq> [a, b]"
    by (auto simp: length_two_iff)
  with assms(1) show ?thesis
    by (simp add: newUserFromDN_def Let_def split: list.splits)
qed

text \<open>
  C9. For a DN matched by exactly one entry, the names come from the \<^verbatim>\<open>cn\<close> value
  split at the spaces: two pieces are the given and the family name; otherwise the given
  name is the mapped \<^verbatim>\<open>name\<close> value when it is not empty and the mapped
  \<^verbatim>\<open>givenName\<close> value when it is, and the family name is the mapped \<^verbatim>\<open>sn\<close> value.
  (\<open>Split_two\<close>: two pieces means exactly one space in the value.)
\<close>

theorem names_from_cn_or_fallback:
  assumes "Search (lc sync) (NewSearchRequest dn ''(objectClass=*)'') = Inr [entry]"
  shows "\<exists>user. newUserFromDN sync dn = Inr (user, sync) \<and>
           (\<forall>given family. Split (GetAttributeValue entry ''cn'') CHR '' '' = [given, family] \<longrightarrow>
              Name user = given \<and> Secondname user = family) \<and>
           (length (Split (GetAttributeValue entry ''cn'') CHR '' '') \<noteq> 2 \<longrightarrow>
              Name user =
                (if GetAttributeValue entry (getAttributeNameFor sync ''name'') \<noteq> []
                 then GetAttributeValue entry (getAttributeNameFor sync ''name'')
                 else GetAttributeValue entry (getAttributeNameFor sync ''givenName'')) \<and>
              Secondname user = GetAttributeValue entry (getAttributeNameFor sync ''sn''))"
proof (cases "length (Split (GetAttributeValue entry ''cn'') CHR '' '') = 2")
  case True
  then obtain g f where gf: "Split (GetAttributeValue entry ''cn'') CHR '' '' = [g, f]"
    by (auto simp: length_two_iff)
  from names_split[OF assms gf] obtain usr where
    u: "newUserFromDN sync dn = Inr (usr, sync)" "Name usr = g" "Secondname usr = f"
    by blast
  show ?thesis
  proof (intro exI[of _ usr] conjI allI impI)
    show "newUserFromDN sync dn = Inr (usr, sync)" by (rule u(1))
  next
    fix given family
    assume "Split (GetAttributeValue entry ''cn'') CHR '' '' = [given, family]"
    with gf have "g = given" "f = family" by simp_all
    with u show "Name usr = given" "Secondname usr = family" by simp_all
  next
    assume "length (Split (GetAttributeValue entry ''cn'') CHR '' '') \<noteq> 2"
    with True show
      "Name usr =
         (if GetAttributeValue entry (getAttributeNameFor sync ''name'') \<noteq> []
          then GetAttributeValue entry (getAttributeNameFor sync ''name'')
          else GetAttributeValue entry (getAttributeNameFor sync ''givenName''))"
      "Secondname usr = GetAttributeValue entry (getAttributeNameFor sync ''sn'')"
      by simp_all
  qed
next
  case False
  from names_fallback[OF assms False] obtain usr where
    u: "newUserFromDN sync dn = Inr (usr, sync)"
    "Name usr = getAttributes entry [getAttributeNameFor sync ''name'', getAttributeNameFor sync ''givenName'']"
    "Secondname usr = GetAttributeValue entry (getAttributeNameFor sync ''sn'')"
    by blast
  show ?thesis
  proof (intro exI[of _ usr] conjI allI impI)
    show "newUserFromDN sync dn = Inr (usr, sync)" by (rule u(1))
  next
    fix given family
    assume "Split (GetAttributeValue entry ''cn'') CHR '' '' = [given, family]"
    then have "length (Split (GetAttributeValue entry ''cn'') CHR '' '') = 2" by simp
    with False show "Name usr = given" "Secondname usr = family" by simp_all
  next
    show "Name usr =
         (if GetAttributeValue entry (getAttributeNameFor sync ''name'') \<noteq> []
          then GetAttributeValue entry (getAttributeNameFor sync ''name'')
          else GetAttributeValue entry (getAttributeNameFor sync ''givenName''))"
      unfolding u(2) by (rule getAttributes_two)
    show "Secondname usr = GetAttributeValue entry (getAttributeNameFor sync ''sn'')"
      by (rule u(3))
  qed
qed

lemma split_alice: "Split ''Alice Adams'' CHR '' '' = [''Alice'', ''Adams'']"
  by simp

lemma split_carol: "Split ''Carol'' CHR '' '' = [''Carol'']"
  by simp

theorem names_from_cn_or_fallback_witness:
  "(\<exists>user. newUserFromDN connectedSync ''cn=alice,ou=Users,dc=x'' = Inr (user, connectedSync) \<and>
      Name user = ''Alice'' \<and> Secondname user = ''Adams'') \<and>
   (\<exists>user. newUserFromDN connectedSync ''cn=carol,ou=Users,dc=x'' = Inr (user, connectedSync) \<and>
      Name user = ''Carol'' \<and> Secondname user = ''Clark'')"
proof -
  have a: "GetAttributeValue aliceEntry ''cn'' = ''Alice Adams''"
    by (simp add: GetAttributeValue_def GetAttributeValues_def aliceEntry_def)
  have c: "GetAttributeValue carolEntry ''cn'' = ''Carol''"
    by (simp add: GetAttributeValue_def GetAttributeValues_def carolEntry_def)
  have m: "getAttributeNameFor connectedSync ''name'' = ''name''"
    "getAttributeNameFor connectedSync ''givenName'' = ''givenName''"
    "getAttributeNameFor connectedSync ''sn'' = ''sn''"
    by (simp_all add: getAttributeNameFor_def connected_cr exampleConfig_def)
  have v: "GetAttributeValue carolEntry ''name'' = []" "GetAttributeValue carolEntry ''givenName'' = ''Carol''"
     "GetAttributeValue carolEntry ''sn'' = ''Clark''"
    by (simp_all add: GetAttributeValue_def GetAttributeValues_def carolEntry_def)
  from names_from_cn_or_fallback[OF search_alice] obtain ua where
    ua: "newUserFromDN connectedSync ''cn=alice,ou=Users,dc=x'' = Inr (ua, connectedSync)"
      "Name ua = ''Alice''" "Secondname ua = ''Adams''"
    unfolding a split_alice by auto
  from names_from_cn_or_fallback[OF search_carol] obtain uc1 where
    uc1: "newUserFromDN connectedSync ''cn=carol,ou=Users,dc=x'' = Inr (uc1, connectedSync)"
      "Name uc1 = ''Carol''" "Secondname uc1 = ''Clark''"
    unfolding c split_carol m v by auto
  from ua uc1 show ?thesis by simp
qed

section \<open>What the push step asks of the destination\<close>

lemma writeTargets_append: "writeTargets (a @ b) = writeTargets a @ writeTargets b"
  by (induction a) (auto simp: writeTargets_def List.map_filter_simps split: option.splits)

lemma createdUids_append: "createdUids (a @ b) = createdUids a @ createdUids b"
  by (induction a) (auto simp: createdUids_def List.map_filter_simps split: option.splits rpc.splits)

lemma deletedUids_append: "deletedUids (a @ b) = deletedUids a @ deletedUids b"
  by (induction a) (auto simp: deletedUids_def List.map_filter_simps split: option.splits rpc.splits)

lemma updates_quiet:
  "\<forall>c \<in> set cs. updates uid c \<Longrightarrow>
     createdUids cs = [] \<and> deletedUids cs = [] \<and> set (writeTargets cs) \<subseteq> {uid}"
proof (induction cs)
  case Nil
  then show ?case by (simp add: createdUids_def deletedUids_def writeTargets_def List.map_filter_simps)
next
  case (Cons c cs)
  then have "updates uid c" by simp
  then have "createdUids [c] = [] \<and> deletedUids [c] = [] \<and> set (writeTargets [c]) \<subseteq> {uid}"
    by (cases c) (auto simp: createdUids_def deletedUids_def writeTargets_def List.map_filter_simps)
  with Cons show ?case
    using createdUids_append[of "[c]" cs] deletedUids_append[of "[c]" cs] writeTargets_append[of "[c]" cs]
    by auto
qed

lemma said_refl: "said sync sync []"
  by (simp add: said_def)

lemma said_trans: "said a b cs \<Longrightarrow> said b c ds \<Longrightarrow> said a c (cs @ ds)"
  by (simp add: said_def)

lemma said_Errorf: "said sync (Errorf l sync) []"
  by (simp add: said_def Errorf_def)

lemma said_call: "call sync request = (res, sync') \<Longrightarrow> said sync sync' [request]"
  by (auto simp: call_def Call_def said_def split: prod.splits)

lemma said_call_Errorf: "call sync request = (res, sync') \<Longrightarrow> said sync (Errorf l sync') [request]"
  using said_trans[OF said_call said_Errorf] by fastforce

lemma removeLoop_said:
  "\<exists>cs. said sync (stateOf (removeLoop sync uid rs) (\<lambda>s. s)) cs \<and> (\<forall>c \<in> set cs. updates uid c)"
proof (induction rs arbitrary: sync)
  case Nil
  then show ?case using said_refl[of sync] by (auto simp: stateOf_def)
next
  case (Cons role rest)
  show ?case
  proof (cases role)
    case (XString r)
    obtain res sync1 where c: "call sync (UserRemoveRole uid r) = (res, sync1)"
      by (cases "call sync (UserRemoveRole uid r)")
    show ?thesis
    proof (cases res)
      case (Inl err)
      from Cons.IH[of "Errorf (ErrCannotRemoveRole r err) sync1"] obtain cs where
        "said (Errorf (ErrCannotRemoveRole r err) sync1)
           (stateOf (removeLoop (Errorf (ErrCannotRemoveRole r err) sync1) uid rest) (\<lambda>s. s)) cs"
        "\<forall>c \<in> set cs. updates uid c" by blast
      with said_trans[OF said_call_Errorf[OF c, of "ErrCannotRemoveRole r err"]] XString c Inl
      show ?thesis by (intro exI[of _ "UserRemoveRole uid r # cs"]) auto
    next
      case (Inr v)
      from Cons.IH[of sync1] obtain cs where
        "said sync1 (stateOf (removeLoop sync1 uid rest) (\<lambda>s. s)) cs" "\<forall>c \<in> set cs. updates uid c"
        by blast
      with said_trans[OF said_call[OF c]] XString c Inr
      show ?thesis by (intro exI[of _ "UserRemoveRole uid r # cs"]) auto
    qed
  qed (use said_refl[of sync] in \<open>auto simp: stateOf_def\<close>)
qed

lemma addLoop_said: "said sync (addLoop sync uid rs) (map (UserAddRole uid) rs)"
proof (induction rs arbitrary: sync)
  case Nil
  then show ?case by (simp add: said_refl)
next
  case (Cons role rest)
  obtain res sync1 where c: "call sync (UserAddRole uid role) = (res, sync1)"
    by (cases "call sync (UserAddRole uid role)")
  show ?case
  proof (cases res)
    case (Inl err)
    from said_trans[OF said_call_Errorf[OF c, of "ErrCannotAddRole role err"] Cons.IH] c Inl
    show ?thesis by simp
  next
    case (Inr v)
    from said_trans[OF said_call[OF c] Cons.IH] c Inr show ?thesis by simp
  qed
qed

lemma pushUserRolesToUyuni_said:
  "\<exists>cs. said sync (stateOf (pushUserRolesToUyuni sync user) (\<lambda>s. s)) cs \<and>
        (\<forall>c \<in> set cs. updates (Uid user) c)"
proof -
  obtain res sync1 where c: "call sync (UserListRoles (Uid user)) = (res, sync1)"
    by (cases "call sync (UserListRoles (Uid user))")
  show ?thesis
  proof (cases res)
    case (Inl err)
    from said_call_Errorf[OF c, of "ErrCannotListRoles (Uid user) err"] c Inl show ?thesis
      by (intro exI[of _ "[UserListRoles (Uid user)]"]) (simp add: pushUserRolesToUyuni_def stateOf_def)
  next
    case (Inr ret)
    show ?thesis
    proof (cases ret)
      case (XArray rs)
      from removeLoop_said[of sync1 "Uid user" rs] obtain cs where
        r: "said sync1 (stateOf (removeLoop sync1 (Uid user) rs) (\<lambda>s. s)) cs"
        and u: "\<forall>c \<in> set cs. updates (Uid user) c" by blast
      show ?thesis
      proof (cases "removeLoop sync1 (Uid user) rs")
        case (Inl x)
        with said_trans[OF said_call[OF c] r] u c Inr XArray show ?thesis
          by (intro exI[of _ "UserListRoles (Uid user) # cs"])
            (auto simp: pushUserRolesToUyuni_def stateOf_def split: prod.splits)
      next
        case (Inr sync2)
        with r have "said sync1 sync2 cs" by (simp add: stateOf_def)
        from said_trans[OF said_trans[OF said_call[OF c] this]
            addLoop_said[of sync2 "Uid user" "GetRoles user"]] u c \<open>res = Inr ret\<close> XArray Inr
        show ?thesis
          by (intro exI[of _ "UserListRoles (Uid user) # cs @ map (UserAddRole (Uid user)) (GetRoles user)"])
            (auto simp: pushUserRolesToUyuni_def stateOf_def)
      qed
    qed (use said_call[OF c] c Inr in
          \<open>auto simp: pushUserRolesToUyuni_def stateOf_def intro!: exI[of _ "[UserListRoles (Uid user)]"]\<close>)
  qed
qed

lemma pushUserAccountDataToUyuni_said:
  "\<exists>cs. said sync (pushUserAccountDataToUyuni sync user) cs \<and> (\<forall>c \<in> set cs. updates (Uid user) c)"
proof -
  obtain res sync1 where
    c: "call sync (UserSetDetails (Uid user) (Name user) (Secondname user) (Email user)) = (res, sync1)"
    by (cases "call sync (UserSetDetails (Uid user) (Name user) (Secondname user) (Email user))")
  show ?thesis
  proof (cases res)
    case (Inl err)
    from said_call_Errorf[OF c, of "ErrPushAccountData (Uid user) err"] c Inl show ?thesis
      by (intro exI[of _ "[UserSetDetails (Uid user) (Name user) (Secondname user) (Email user)]"])
        (simp add: pushUserAccountDataToUyuni_def)
  next
    case (Inr v)
    obtain res2 sync2 where c2: "call sync1 (UserUsePamAuthentication (Uid user)) = (res2, sync2)"
      by (cases "call sync1 (UserUsePamAuthentication (Uid user))")
    show ?thesis
    proof (cases res2)
      case (Inl err)
      from said_trans[OF said_call[OF c] said_call_Errorf[OF c2, of "ErrPushAuthentication (Uid user) err"]]
        c c2 Inr Inl
      show ?thesis
        by (intro exI[of _ "[UserSetDetails (Uid user) (Name user) (Secondname user) (Email user),
                             UserUsePamAuthentication (Uid user)]"])
          (simp add: pushUserAccountDataToUyuni_def)
    next
      case (Inr v2)
      from said_trans[OF said_call[OF c] said_call[OF c2]] c c2 \<open>res = Inr v\<close> Inr
      show ?thesis
        by (intro exI[of _ "[UserSetDetails (Uid user) (Name user) (Secondname user) (Email user),
                             UserUsePamAuthentication (Uid user)]"])
          (simp add: pushUserAccountDataToUyuni_def)
    qed
  qed
qed

lemma deleteUser_said: "said sync (deleteUser sync user) [UserDelete (Uid user)]"
proof -
  obtain res sync1 where c: "call sync (UserDelete (Uid user)) = (res, sync1)"
    by (cases "call sync (UserDelete (Uid user))")
  show ?thesis
    using said_call[OF c] said_call_Errorf[OF c] c
    by (cases res) (simp_all add: deleteUser_def)
qed

lemma deleteLoop_said: "said sync (deleteLoop sync users) (map (\<lambda>u. UserDelete (Uid u)) users)"
proof (induction users arbitrary: sync)
  case Nil
  then show ?case by (simp add: said_refl)
next
  case (Cons u us)
  from said_trans[OF deleteUser_said[of sync u] Cons.IH[of "deleteUser sync u"]]
  show ?case by simp
qed
lemma create_call_facts:
  "createdUids (UserCreate uid n s e # cs) = uid # createdUids cs"
  "deletedUids (UserCreate uid n s e # cs) = deletedUids cs"
  "writeTargets (UserCreate uid n s e # cs) = uid # writeTargets cs"
  by (simp_all add: createdUids_def deletedUids_def writeTargets_def List.map_filter_simps)

lemma delete_calls_facts:
  "createdUids (map (\<lambda>u. UserDelete (Uid u)) users) = []"
  "deletedUids (map (\<lambda>u. UserDelete (Uid u)) users) = map Uid users"
  "writeTargets (map (\<lambda>u. UserDelete (Uid u)) users) = map Uid users"
  by (induction users)
    (simp_all add: createdUids_def deletedUids_def writeTargets_def List.map_filter_simps)

lemma createLoop_said:
  "\<exists>cs. said sync (stateOf (createLoop sync failed users) (\<lambda>(f, c, s). s)) cs \<and>
        set (writeTargets cs) \<subseteq> Uid ` set users \<and> deletedUids cs = [] \<and>
        (\<forall>failed' created sync'.
           createLoop sync failed users = Inr (failed', created, sync') \<longrightarrow>
             createdUids cs = map Uid users \<and> map Uid created = map Uid users \<and>
             map IsNew created = map IsNew users)"
proof (induction users arbitrary: sync failed)
  case Nil
  show ?case
    by (intro exI[of _ "[]"])
      (simp add: stateOf_def said_refl writeTargets_def createdUids_def deletedUids_def
        List.map_filter_simps)
next
  case (Cons user0 users)
  let ?req = "UserCreate (Uid user0) (Name user0) (Secondname user0) (Email user0)"
  obtain res sync1 where c: "call sync ?req = (res, sync1)"
    by (cases "call sync ?req")
  let ?user = "user0\<lparr>Err := (case res of Inl err \<Rightarrow> Some err | Inr _ \<Rightarrow> None)\<rparr>"
  have uid: "Uid ?user = Uid user0" and isnew: "IsNew ?user = IsNew user0"
    by (simp_all add: IsNew_def)
  show ?case
  proof (cases "IsValid ?user")
    case False
    from Cons.IH[of sync1 "failed @ [?user]"] obtain cs where
      s: "said sync1 (stateOf (createLoop sync1 (failed @ [?user]) users) (\<lambda>(f, c, s). s)) cs"
      and w: "set (writeTargets cs) \<subseteq> Uid ` set users" and d: "deletedUids cs = []"
      and r: "\<forall>failed' created sync'.
           createLoop sync1 (failed @ [?user]) users = Inr (failed', created, sync') \<longrightarrow>
             createdUids cs = map Uid users \<and> map Uid created = map Uid users \<and>
             map IsNew created = map IsNew users"
      by blast
    have e: "createLoop sync failed (user0 # users) =
               (case createLoop sync1 (failed @ [?user]) users of
                  Inl x \<Rightarrow> Inl x
                | Inr (failed', users', sync') \<Rightarrow> Inr (failed', ?user # users', sync'))"
      using c False by (simp add: Let_def)
    have st: "stateOf (createLoop sync failed (user0 # users)) (\<lambda>(f, c, s). s)
                = stateOf (createLoop sync1 (failed @ [?user]) users) (\<lambda>(f, c, s). s)"
      unfolding e by (auto simp: stateOf_def split: sum.splits prod.splits)
    show ?thesis
    proof (intro exI[of _ "?req # cs"] conjI allI impI)
      show "said sync (stateOf (createLoop sync failed (user0 # users)) (\<lambda>(f, c, s). s)) (?req # cs)"
        unfolding st using said_trans[OF said_call[OF c] s] by simp
      show "set (writeTargets (?req # cs)) \<subseteq> Uid ` set (user0 # users)"
        using w by (auto simp: create_call_facts)
      show "deletedUids (?req # cs) = []"
        using d by (simp add: create_call_facts)
    next
      fix failed' created sync'
      assume a: "createLoop sync failed (user0 # users) = Inr (failed', created, sync')"
      then obtain users' where
        "createLoop sync1 (failed @ [?user]) users = Inr (failed', users', sync')" "created = ?user # users'"
        unfolding e by (auto split: sum.splits prod.splits)
      with r uid isnew show "createdUids (?req # cs) = map Uid (user0 # users)"
        "map Uid created = map Uid (user0 # users)" "map IsNew created = map IsNew (user0 # users)"
        by (simp_all add: create_call_facts)
    qed
  next
    case True
    from pushUserRolesToUyuni_said[of sync1 ?user] obtain ps where
      p: "said sync1 (stateOf (pushUserRolesToUyuni sync1 ?user) (\<lambda>s. s)) ps"
      and pu: "\<forall>c \<in> set ps. updates (Uid user0) c"
      by (auto simp: uid)
    note q = updates_quiet[OF pu]
    show ?thesis
    proof (cases "pushUserRolesToUyuni sync1 ?user")
      case (Inl x)
      have e: "createLoop sync failed (user0 # users) = Inl x"
        using c True Inl by (simp add: Let_def)
      from p Inl have "said sync1 (snd x) ps" by (simp add: stateOf_def split: prod.splits)
      from said_trans[OF said_call[OF c] this] q show ?thesis
        unfolding e
        by (intro exI[of _ "?req # ps"])
          (auto simp: stateOf_def create_call_facts split: prod.splits)
    next
      case (Inr sync2)
      with p have p2: "said sync1 sync2 ps" by (simp add: stateOf_def)
      from Cons.IH[of sync2 failed] obtain cs where
        s: "said sync2 (stateOf (createLoop sync2 failed users) (\<lambda>(f, c, s). s)) cs"
        and w: "set (writeTargets cs) \<subseteq> Uid ` set users" and d: "deletedUids cs = []"
        and r: "\<forall>failed' created sync'.
           createLoop sync2 failed users = Inr (failed', created, sync') \<longrightarrow>
             createdUids cs = map Uid users \<and> map Uid created = map Uid users \<and>
             map IsNew created = map IsNew users"
        by blast
      have e: "createLoop sync failed (user0 # users) =
               (case createLoop sync2 failed users of
                  Inl x \<Rightarrow> Inl x
                | Inr (failed', users', sync') \<Rightarrow> Inr (failed', ?user # users', sync'))"
        using c True Inr by (simp add: Let_def)
      have st: "stateOf (createLoop sync failed (user0 # users)) (\<lambda>(f, c, s). s)
                = stateOf (createLoop sync2 failed users) (\<lambda>(f, c, s). s)"
        unfolding e by (auto simp: stateOf_def split: sum.splits prod.splits)
      show ?thesis
      proof (intro exI[of _ "?req # ps @ cs"] conjI allI impI)
        show "said sync (stateOf (createLoop sync failed (user0 # users)) (\<lambda>(f, c, s). s)) (?req # ps @ cs)"
          unfolding st using said_trans[OF said_trans[OF said_call[OF c] p2] s] by simp
        show "set (writeTargets (?req # ps @ cs)) \<subseteq> Uid ` set (user0 # users)"
          using w q by (auto simp: create_call_facts writeTargets_append)
        show "deletedUids (?req # ps @ cs) = []"
          using d q by (simp add: create_call_facts deletedUids_append)
      next
        fix failed' created sync'
        assume a: "createLoop sync failed (user0 # users) = Inr (failed', created, sync')"
        then obtain users' where
          "createLoop sync2 failed users = Inr (failed', users', sync')" "created = ?user # users'"
          unfolding e by (auto split: sum.splits prod.splits)
        with r q uid isnew show "createdUids (?req # ps @ cs) = map Uid (user0 # users)"
          "map Uid created = map Uid (user0 # users)" "map IsNew created = map IsNew (user0 # users)"
          by (simp_all add: create_call_facts createdUids_append)
      qed
    qed
  qed
qed

lemma updateLoop_said:
  "\<exists>cs. said sync (stateOf (updateLoop sync users) (\<lambda>s. s)) cs \<and>
        set (writeTargets cs) \<subseteq> Uid ` set users \<and> deletedUids cs = [] \<and> createdUids cs = []"
proof (induction users arbitrary: sync)
  case Nil
  show ?case
    by (intro exI[of _ "[]"])
      (simp add: stateOf_def said_refl writeTargets_def createdUids_def deletedUids_def
        List.map_filter_simps)
next
  case (Cons user users)
  from pushUserRolesToUyuni_said[of sync user] obtain ps where
    p: "said sync (stateOf (pushUserRolesToUyuni sync user) (\<lambda>s. s)) ps"
    and pu: "\<forall>c \<in> set ps. updates (Uid user) c"
    by auto
  note q = updates_quiet[OF pu]
  show ?case
  proof (cases "pushUserRolesToUyuni sync user")
    case (Inl x)
    with p q show ?thesis
      by (intro exI[of _ ps]) (auto simp: stateOf_def split: prod.splits)
  next
    case (Inr sync1)
    with p have p1: "said sync sync1 ps" by (simp add: stateOf_def)
    from pushUserAccountDataToUyuni_said[of sync1 user] obtain as where
      a: "said sync1 (pushUserAccountDataToUyuni sync1 user) as"
      and au: "\<forall>c \<in> set as. updates (Uid user) c" by blast
    note qa = updates_quiet[OF au]
    from Cons.IH[of "pushUserAccountDataToUyuni sync1 user"] obtain cs where
      s: "said (pushUserAccountDataToUyuni sync1 user)
            (stateOf (updateLoop (pushUserAccountDataToUyuni sync1 user) users) (\<lambda>s. s)) cs"
      and w: "set (writeTargets cs) \<subseteq> Uid ` set users" and d: "deletedUids cs = []"
      and cr: "createdUids cs = []"
      by blast
    from said_trans[OF said_trans[OF p1 a] s] w d cr q qa Inr show ?thesis
      by (intro exI[of _ "ps @ as @ cs"])
        (auto simp: writeTargets_append deletedUids_append createdUids_append)
  qed
qed
lemma AddRoles_new: "new (AddRoles rs u) = new u"
  by (simp add: AddRoles_def)

lemma updateFromLDAPUser_keeps:
  "Uid (updateFromLDAPUser sync u) = Uid u \<and> IsNew (updateFromLDAPUser sync u) = IsNew u"
proof -
  have inner: "\<And>rs v. Uid (foldl (\<lambda>usr' role. AddRoles [role] usr') v rs) = Uid v \<and>
                       new (foldl (\<lambda>usr' role. AddRoles [role] usr') v rs) = new v"
  proof -
    fix rs :: "string list" and v :: UyuniUser
    show "Uid (foldl (\<lambda>usr' role. AddRoles [role] usr') v rs) = Uid v \<and>
          new (foldl (\<lambda>usr' role. AddRoles [role] usr') v rs) = new v"
      by (induction rs arbitrary: v) (simp_all add: AddRoles_Uid AddRoles_new)
  qed
  have "\<And>ls. Uid (foldl (\<lambda>usr ldapUser.
              if Uid ldapUser = Uid usr then
                foldl (\<lambda>usr' role. AddRoles [role] usr')
                  (FlushRoles (usr\<lparr>Name := Name ldapUser, Secondname := Secondname ldapUser,
                                    Email := Email ldapUser\<rparr>))
                  (GetRoles ldapUser)
              else usr) u ls) = Uid u \<and>
         new (foldl (\<lambda>usr ldapUser.
              if Uid ldapUser = Uid usr then
                foldl (\<lambda>usr' role. AddRoles [role] usr')
                  (FlushRoles (usr\<lparr>Name := Name ldapUser, Secondname := Secondname ldapUser,
                                    Email := Email ldapUser\<rparr>))
                  (GetRoles ldapUser)
              else usr) u ls) = new u"
  proof -
    fix ls
    show "Uid (foldl (\<lambda>usr ldapUser.
              if Uid ldapUser = Uid usr then
                foldl (\<lambda>usr' role. AddRoles [role] usr')
                  (FlushRoles (usr\<lparr>Name := Name ldapUser, Secondname := Secondname ldapUser,
                                    Email := Email ldapUser\<rparr>))
                  (GetRoles ldapUser)
              else usr) u ls) = Uid u \<and>
         new (foldl (\<lambda>usr ldapUser.
              if Uid ldapUser = Uid usr then
                foldl (\<lambda>usr' role. AddRoles [role] usr')
                  (FlushRoles (usr\<lparr>Name := Name ldapUser, Secondname := Secondname ldapUser,
                                    Email := Email ldapUser\<rparr>))
                  (GetRoles ldapUser)
              else usr) u ls) = new u"
      by (induction ls arbitrary: u) (simp_all add: inner FlushRoles_def)
  qed
  then show ?thesis by (simp add: updateFromLDAPUser_def IsNew_def)
qed

lemma GetNewUsers_keeps:
  assumes "GetNewUsers sync0 = (newUsers, sync)"
  shows "map Uid (uyuniusers sync) = map Uid (uyuniusers sync0)"
    and "map IsNew (uyuniusers sync) = map IsNew (uyuniusers sync0)"
    and "newUsers = filter IsNew (uyuniusers sync)"
    and "sync = sync0\<lparr>uyuniusers := uyuniusers sync\<rparr>"
  using assms by (auto simp: GetNewUsers_def Let_def updateFromLDAPUser_keeps)

lemma map_filter_by_flags:
  "map f xs = map g ys \<Longrightarrow> map p xs = map q ys \<Longrightarrow> map f (filter p xs) = map g (filter q ys)"
proof (induction xs arbitrary: ys)
  case Nil
  then show ?case by simp
next
  case (Cons x xs)
  then obtain y ys' where "ys = y # ys'" by (cases ys) auto
  with Cons show ?case by auto
qed

lemma storeBack_keeps:
  "map Uid users = map Uid (filter IsNew uyuni) \<Longrightarrow> map IsNew users = map IsNew (filter IsNew uyuni) \<Longrightarrow>
     map Uid (storeBack uyuni users) = map Uid uyuni \<and> map IsNew (storeBack uyuni users) = map IsNew uyuni"
proof (induction uyuni arbitrary: users)
  case Nil
  then show ?case by simp
next
  case (Cons u uyuni)
  show ?case
  proof (cases "IsNew u")
    case True
    with Cons.prems obtain v vs where v: "users = v # vs" "Uid v = Uid u" "IsNew v = IsNew u"
      "map Uid vs = map Uid (filter IsNew uyuni)" "map IsNew vs = map IsNew (filter IsNew uyuni)"
      by (cases users) auto
    with Cons.IH[of vs] True show ?thesis by simp
  next
    case False
    with Cons.prems Cons.IH[of users] show ?thesis by simp
  qed
qed

lemma GetDeletedUsers_cong:
  "map Uid (uyuniusers a) = map Uid (uyuniusers b) \<Longrightarrow> ldapusers a = ldapusers b \<Longrightarrow>
     allldapusers a = allldapusers b \<Longrightarrow> GetDeletedUsers a = GetDeletedUsers b"
  by (simp add: GetDeletedUsers_def in_users_iff)

lemma GetDeletedUsers_known: "Uid ` set (GetDeletedUsers sync) \<subseteq> Uid ` set (uyuniusers sync)"
  by (auto simp: GetDeletedUsers_def in_users_iff)

lemma set_map_eq: "map f xs = map f ys \<Longrightarrow> f ` set xs = f ` set ys"
  by (metis set_map)

lemma SyncUsers_trace:
  "\<exists>cs. trace (uc (stateOf (SyncUsers sync0) snd)) = trace (uc sync0) @ cs \<and>
        cr (stateOf (SyncUsers sync0) snd) = cr sync0 \<and>
        set (writeTargets cs) \<subseteq> Uid ` set (uyuniusers sync0) \<and>
        (\<forall>failed sync'. SyncUsers sync0 = Inr (failed, sync') \<longrightarrow>
           createdUids cs = map Uid (filter IsNew (uyuniusers sync0)) \<and>
           deletedUids cs = map Uid (GetDeletedUsers sync0))"
proof -
  obtain newUsers sync where g: "GetNewUsers sync0 = (newUsers, sync)"
    by (cases "GetNewUsers sync0")
  note k = GetNewUsers_keeps[OF g]
  have base: "trace (uc sync) = trace (uc sync0)" "cr sync = cr sync0"
    "ldapusers sync = ldapusers sync0" "allldapusers sync = allldapusers sync0"
    by (subst k(4), simp)+
  have uids: "Uid ` set (uyuniusers sync) = Uid ` set (uyuniusers sync0)"
    using set_map_eq[OF k(1)] .
  from createLoop_said[of sync "[]" newUsers] obtain cs1 where
    s1: "said sync (stateOf (createLoop sync [] newUsers) (\<lambda>(f, c, s). s)) cs1"
    and w1: "set (writeTargets cs1) \<subseteq> Uid ` set newUsers" and d1: "deletedUids cs1 = []"
    and r1: "\<forall>failed' created sync'.
           createLoop sync [] newUsers = Inr (failed', created, sync') \<longrightarrow>
             createdUids cs1 = map Uid newUsers \<and> map Uid created = map Uid newUsers \<and>
             map IsNew created = map IsNew newUsers"
    by blast
  have "Uid ` set newUsers \<subseteq> Uid ` set (uyuniusers sync)"
    unfolding k(3) by auto
  with w1 have "set (writeTargets cs1) \<subseteq> Uid ` set (uyuniusers sync)"
    by (rule order_trans)
  then have w1': "set (writeTargets cs1) \<subseteq> Uid ` set (uyuniusers sync0)"
    unfolding uids .
  show ?thesis
  proof (cases "createLoop sync [] newUsers")
    case (Inl x)
    then have e: "SyncUsers sync0 = Inl x" by (simp add: SyncUsers_def g)
    from s1 Inl have "said sync (snd x) cs1" by (simp add: stateOf_def split: prod.splits)
    with base w1' show ?thesis
      unfolding e by (intro exI[of _ cs1]) (auto simp: stateOf_def said_def split: prod.splits)
  next
    case (Inr res)
    obtain failed created sync1 where res: "res = (failed, created, sync1)" by (cases res)
    from s1 Inr res have s1': "said sync sync1 cs1" by (simp add: stateOf_def)
    from r1 Inr res have c1: "createdUids cs1 = map Uid newUsers" "map Uid created = map Uid newUsers"
      "map IsNew created = map IsNew newUsers" by simp_all
    define sync2 where "sync2 = sync1\<lparr>uyuniusers := storeBack (uyuniusers sync1) created\<rparr>"
    have u1: "uyuniusers sync1 = uyuniusers sync" using s1' by (simp add: said_def)
    from storeBack_keeps[of created "uyuniusers sync"] c1 k(3)
    have sb: "map Uid (uyuniusers sync2) = map Uid (uyuniusers sync0)"
      by (simp add: sync2_def u1 k(1))
    have f2: "trace (uc sync2) = trace (uc sync0) @ cs1" "cr sync2 = cr sync0"
      "ldapusers sync2 = ldapusers sync0" "allldapusers sync2 = allldapusers sync0"
      using s1' base by (simp_all add: sync2_def said_def)
    from updateLoop_said[of sync2 "GetOutdatedUsers sync2"] obtain cs2 where
      s2: "said sync2 (stateOf (updateLoop sync2 (GetOutdatedUsers sync2)) (\<lambda>s. s)) cs2"
      and w2: "set (writeTargets cs2) \<subseteq> Uid ` set (GetOutdatedUsers sync2)"
      and d2: "deletedUids cs2 = []" and c2: "createdUids cs2 = []"
      by blast
    have "Uid ` set (GetOutdatedUsers sync2) \<subseteq> Uid ` set (uyuniusers sync2)"
      by (auto simp: GetOutdatedUsers_def)
    with w2 have "set (writeTargets cs2) \<subseteq> Uid ` set (uyuniusers sync2)"
      by (rule order_trans)
    then have w2': "set (writeTargets cs2) \<subseteq> Uid ` set (uyuniusers sync0)"
      unfolding set_map_eq[OF sb] .
    have e0: "SyncUsers sync0 =
            (case updateLoop sync2 (GetOutdatedUsers sync2) of
               Inl x \<Rightarrow> Inl x
             | Inr sync3 \<Rightarrow> Inr (failed, deleteLoop sync3 (GetDeletedUsers sync3)))"
      by (simp add: SyncUsers_def g Inr res sync2_def Let_def split: sum.splits)
    show ?thesis
    proof (cases "updateLoop sync2 (GetOutdatedUsers sync2)")
      case (Inl x)
      with e0 have e: "SyncUsers sync0 = Inl x" by simp
      from s2 Inl have "said sync2 (snd x) cs2" by (simp add: stateOf_def split: prod.splits)
      with f2 w1' w2' show ?thesis
        unfolding e
        by (intro exI[of _ "cs1 @ cs2"])
          (auto simp: stateOf_def said_def writeTargets_append split: prod.splits)
    next
      case (Inr sync3)
      with e0 have e: "SyncUsers sync0 = Inr (failed, deleteLoop sync3 (GetDeletedUsers sync3))"
        by simp
      from s2 Inr have s3: "said sync2 sync3 cs2" by (simp add: stateOf_def)
      have "GetDeletedUsers sync3 = GetDeletedUsers sync0"
        using s3 sb f2 by (intro GetDeletedUsers_cong) (simp_all add: said_def)
      then have del: "said sync3 (deleteLoop sync3 (GetDeletedUsers sync3))
                        (map (\<lambda>u. UserDelete (Uid u)) (GetDeletedUsers sync0))"
        using deleteLoop_said[of sync3 "GetDeletedUsers sync3"] by simp
      have newu: "map Uid newUsers = map Uid (filter IsNew (uyuniusers sync0))"
        unfolding k(3) by (rule map_filter_by_flags[OF k(1) k(2)])
      let ?cs = "cs1 @ cs2 @ map (\<lambda>u. UserDelete (Uid u)) (GetDeletedUsers sync0)"
      show ?thesis
        unfolding e
      proof (intro exI[of _ ?cs] conjI allI impI)
        show "trace (uc (stateOf (Inr (failed, deleteLoop sync3 (GetDeletedUsers sync3))) snd))
                = trace (uc sync0) @ ?cs"
          using del s3 f2 by (simp add: stateOf_def said_def)
        show "cr (stateOf (Inr (failed, deleteLoop sync3 (GetDeletedUsers sync3))) snd) = cr sync0"
          using del s3 f2 by (simp add: stateOf_def said_def)
        show "set (writeTargets ?cs) \<subseteq> Uid ` set (uyuniusers sync0)"
          using w1' w2' GetDeletedUsers_known[of sync0]
          by (auto simp: writeTargets_append delete_calls_facts)
        show "createdUids ?cs = map Uid (filter IsNew (uyuniusers sync0))"
          using c1 c2 newu by (simp add: createdUids_append delete_calls_facts)
        show "deletedUids ?cs = map Uid (GetDeletedUsers sync0)"
          using d1 d2 by (simp add: deletedUids_append delete_calls_facts)
      qed
    qed
  qed
qed

section \<open>Classification and what the push step does with it\<close>

lemma compareWith_keeps: "Uid (fst (compareWith user u)) = Uid user \<and> new (fst (compareWith user u)) = new user
    \<and> roles (fst (compareWith user u)) = roles user \<and> Name (fst (compareWith user u)) = Name user
    \<and> Secondname (fst (compareWith user u)) = Secondname user \<and> Email (fst (compareWith user u)) = Email user
    \<and> outdated (fst (compareWith user u)) = outdated user"
  by (simp add: compareWith_def Let_def)

lemma sameAsIn_keeps: "Uid (fst (sameAsIn user users)) = Uid user \<and> new (fst (sameAsIn user users)) = new user
    \<and> roles (fst (sameAsIn user users)) = roles user \<and> Name (fst (sameAsIn user users)) = Name user
    \<and> Secondname (fst (sameAsIn user users)) = Secondname user \<and> Email (fst (sameAsIn user users)) = Email user
    \<and> outdated (fst (sameAsIn user users)) = outdated user"
proof (induction users)
  case Nil
  then show ?case by simp
next
  case (Cons u users)
  then show ?case
    using compareWith_keeps[of user u] by (auto split: prod.splits)
qed

lemma classify_flags:
  assumes "classify user uyuni = (user', clones)"
  shows "Uid user' = Uid user" "IsNew user' = (\<not> in_users user uyuni)"
    "clones = (if in_users user uyuni then [] else [user'])"
    "roles user' = roles user" "Name user' = Name user" "Secondname user' = Secondname user"
    "Email user' = Email user"
proof -
  let ?u = "user\<lparr>new := \<not> in_users user uyuni\<rparr>"
  obtain v r where s: "sameAsIn ?u uyuni = (v, r)" by (cases "sameAsIn ?u uyuni")
  have k: "Uid v = Uid user \<and> new v = (\<not> in_users user uyuni) \<and> roles v = roles user \<and>
     Name v = Name user \<and> Secondname v = Secondname user \<and> Email v = Email user"
    using sameAsIn_keeps[of ?u uyuni] by (simp add: s)
  from assms s k show "Uid user' = Uid user" "IsNew user' = (\<not> in_users user uyuni)"
    "clones = (if in_users user uyuni then [] else [user'])"
    "roles user' = roles user" "Name user' = Name user" "Secondname user' = Secondname user"
    "Email user' = Email user"
    by (auto simp: classify_def IsNew_def Clone_def Let_def split: sum.splits if_splits)
qed

lemma overwrite_keeps: "Uid (overwrite user u) = Uid u \<and> IsNew (overwrite user u) = IsNew u"
  by (simp add: overwrite_def AddRoles_def FlushRoles_def IsNew_def)

lemma in_users_overwrite: "in_users d (map (overwrite user) uyuni) = in_users d uyuni"
  by (simp add: in_users_iff overwrite_keeps)

lemma refreshStatusLoop_flags:
  assumes "refreshStatusLoop staged uyuni = (staged', uyuni', newusers)"
  shows "map Uid staged' = map Uid staged \<and>
         map IsNew staged' = map (\<lambda>d. \<not> in_users d uyuni) staged \<and>
         map Uid uyuni' = map Uid uyuni \<and> map IsNew uyuni' = map IsNew uyuni \<and>
         newusers = filter IsNew staged'"
  using assms
proof (induction staged arbitrary: uyuni staged' uyuni' newusers)
  case Nil
  then show ?case by simp
next
  case (Cons user rest)
  obtain user' clones where c: "classify user uyuni = (user', clones)"
    by (cases "classify user uyuni")
  obtain rest' uy news where r: "refreshStatusLoop rest (map (overwrite user') uyuni) = (rest', uy, news)"
    by (cases "refreshStatusLoop rest (map (overwrite user') uyuni)") auto
  from Cons.prems c r have e: "staged' = user' # rest'" "uyuni' = uy" "newusers = clones @ news"
    by simp_all
  note f = classify_flags[OF c]
  from Cons.IH[OF r] f(1,2,3) show ?case
    by (simp add: e in_users_overwrite overwrite_keeps)
qed
lemma removeLoop_returns:
  "list_all (\<lambda>x. case x of XString _ \<Rightarrow> True | _ \<Rightarrow> False) rs \<Longrightarrow> \<exists>sync'. removeLoop sync uid rs = Inr sync'"
proof (induction rs arbitrary: sync)
  case Nil
  then show ?case by simp
next
  case (Cons role rest)
  then obtain r where r: "role = XString r" by (cases role) auto
  obtain res sync1 where c: "call sync (UserRemoveRole uid r) = (res, sync1)"
    by (cases "call sync (UserRemoveRole uid r)")
  from Cons show ?case
    by (cases res) (simp_all add: r c)
qed

lemma call_reply: "call sync request = (res, sync') \<Longrightarrow> res = fst (remote (uc sync) (server (uc sync)) request)"
  by (auto simp: call_def Call_def split: prod.splits)

lemma pushUserRolesToUyuni_returns:
  assumes "listsRolesAsStrings (remote (uc sync))"
  shows "\<exists>sync'. pushUserRolesToUyuni sync user = Inr sync'"
proof -
  obtain res sync1 where c: "call sync (UserListRoles (Uid user)) = (res, sync1)"
    by (cases "call sync (UserListRoles (Uid user))")
  show ?thesis
  proof (cases res)
    case (Inl err)
    with c show ?thesis by (simp add: pushUserRolesToUyuni_def)
  next
    case (Inr ret)
    with assms call_reply[OF c] have "isStringArray ret"
      by (auto simp: listsRolesAsStrings_def split: sum.splits dest: spec[of _ "server (uc sync)"])
    then obtain rs where rs: "ret = XArray rs"
      "list_all (\<lambda>x. case x of XString _ \<Rightarrow> True | _ \<Rightarrow> False) rs"
      by (cases ret) (auto simp: isStringArray_def)
    from removeLoop_returns[OF rs(2), of sync1 "Uid user"] obtain sync2 where
      "removeLoop sync1 (Uid user) rs = Inr sync2" by blast
    with c Inr rs show ?thesis by (simp add: pushUserRolesToUyuni_def)
  qed
qed

lemma said_remote: "said sync sync' cs \<Longrightarrow> remote (uc sync') = remote (uc sync)"
  by (simp add: said_def)

lemma createLoop_returns:
  assumes "listsRolesAsStrings (remote (uc sync))"
  shows "\<exists>r. createLoop sync failed users = Inr r"
  using assms
proof (induction users arbitrary: sync failed)
  case Nil
  then show ?case by simp
next
  case (Cons user0 users)
  let ?req = "UserCreate (Uid user0) (Name user0) (Secondname user0) (Email user0)"
  obtain res sync1 where c: "call sync ?req = (res, sync1)"
    by (cases "call sync ?req")
  let ?user = "user0\<lparr>Err := (case res of Inl err \<Rightarrow> Some err | Inr _ \<Rightarrow> None)\<rparr>"
  have w1: "listsRolesAsStrings (remote (uc sync1))"
    using Cons.prems said_remote[OF said_call[OF c]] by simp
  show ?case
  proof (cases "IsValid ?user")
    case False
    from Cons.IH[OF w1, of "failed @ [?user]"] obtain r where
      "createLoop sync1 (failed @ [?user]) users = Inr r" by blast
    with c False show ?thesis by (cases r) (simp add: Let_def)
  next
    case True
    from pushUserRolesToUyuni_returns[OF w1, of ?user] obtain sync2 where
      p: "pushUserRolesToUyuni sync1 ?user = Inr sync2" by blast
    from pushUserRolesToUyuni_said[of sync1 ?user] p obtain ps where "said sync1 sync2 ps"
      by (auto simp: stateOf_def)
    then have "listsRolesAsStrings (remote (uc sync2))"
      using w1 said_remote by metis
    from Cons.IH[OF this, of failed] obtain r where "createLoop sync2 failed users = Inr r" by blast
    with c True p show ?thesis by (cases r) (simp add: Let_def)
  qed
qed

lemma updateLoop_returns:
  assumes "listsRolesAsStrings (remote (uc sync))"
  shows "\<exists>sync'. updateLoop sync users = Inr sync'"
  using assms
proof (induction users arbitrary: sync)
  case Nil
  then show ?case by simp
next
  case (Cons user users)
  from pushUserRolesToUyuni_returns[OF Cons.prems, of user] obtain sync1 where
    p: "pushUserRolesToUyuni sync user = Inr sync1" by blast
  from pushUserRolesToUyuni_said[of sync user] p obtain ps where s1: "said sync sync1 ps"
    by (auto simp: stateOf_def)
  from pushUserAccountDataToUyuni_said[of sync1 user] obtain as where
    s2: "said sync1 (pushUserAccountDataToUyuni sync1 user) as" by blast
  have "listsRolesAsStrings (remote (uc (pushUserAccountDataToUyuni sync1 user)))"
    using Cons.prems said_remote[OF s1] said_remote[OF s2] by simp
  from Cons.IH[OF this] p show ?case by simp
qed

lemma SyncUsers_returns:
  assumes "listsRolesAsStrings (remote (uc sync0))"
  shows "\<exists>failed sync'. SyncUsers sync0 = Inr (failed, sync')"
proof -
  obtain newUsers sync where g: "GetNewUsers sync0 = (newUsers, sync)"
    by (cases "GetNewUsers sync0")
  have w: "listsRolesAsStrings (remote (uc sync))"
    using assms g by (auto simp: GetNewUsers_def Let_def)
  from createLoop_returns[OF w, of "[]" newUsers] obtain failed created sync1 where
    c: "createLoop sync [] newUsers = Inr (failed, created, sync1)"
    by (metis prod_cases3)
  from createLoop_said[of sync "[]" newUsers] c obtain cs1 where "said sync sync1 cs1"
    by (auto simp: stateOf_def)
  then have "listsRolesAsStrings (remote (uc (sync1\<lparr>uyuniusers := storeBack (uyuniusers sync1) created\<rparr>)))"
    using w said_remote[of sync sync1 cs1] by simp
  from updateLoop_returns[OF this] obtain sync3 where
    "updateLoop (sync1\<lparr>uyuniusers := storeBack (uyuniusers sync1) created\<rparr>)
       (GetOutdatedUsers (sync1\<lparr>uyuniusers := storeBack (uyuniusers sync1) created\<rparr>)) = Inr sync3"
    by blast
  with g c show ?thesis by (simp add: SyncUsers_def Let_def)
qed
lemma refreshUyuniUsersStatus_frame:
  "uc (refreshUyuniUsersStatus sync) = uc sync \<and> cr (refreshUyuniUsersStatus sync) = cr sync \<and>
   allldapusers (refreshUyuniUsersStatus sync) = allldapusers sync \<and>
   lc (refreshUyuniUsersStatus sync) = lc sync"
  by (simp add: refreshUyuniUsersStatus_def split: prod.splits)

lemma refreshUyuniUsersStatus_flags:
  "map Uid (ldapusers (refreshUyuniUsersStatus sync)) = map Uid (ldapusers sync) \<and>
   map IsNew (ldapusers (refreshUyuniUsersStatus sync))
     = map (\<lambda>d. \<not> in_users d (uyuniusers sync)) (ldapusers sync) \<and>
   map Uid (uyuniusers (refreshUyuniUsersStatus sync))
     = map Uid (uyuniusers sync) @ map Uid (filter (\<lambda>d. \<not> in_users d (uyuniusers sync)) (ldapusers sync)) \<and>
   map IsNew (uyuniusers (refreshUyuniUsersStatus sync))
     = map IsNew (uyuniusers sync) @ map (\<lambda>d. True) (filter (\<lambda>d. \<not> in_users d (uyuniusers sync)) (ldapusers sync))"
proof -
  obtain staged' uyuni' newusers where
    r: "refreshStatusLoop (ldapusers sync) (uyuniusers sync) = (staged', uyuni', newusers)"
    by (cases "refreshStatusLoop (ldapusers sync) (uyuniusers sync)") auto
  note f = refreshStatusLoop_flags[OF r]
  have n: "map Uid (filter IsNew staged')
             = map Uid (filter (\<lambda>d. \<not> in_users d (uyuniusers sync)) (ldapusers sync))"
    using f by (intro map_filter_by_flags) simp_all
  have l: "length (filter IsNew staged')
             = length (filter (\<lambda>d. \<not> in_users d (uyuniusers sync)) (ldapusers sync))"
    using n by (metis length_map)
  have m: "map IsNew (filter IsNew staged') = map (\<lambda>d. True) (filter IsNew staged')"
    by simp
  have "map (\<lambda>d. True) (filter IsNew staged')
          = map (\<lambda>d. True) (filter (\<lambda>d. \<not> in_users d (uyuniusers sync)) (ldapusers sync))"
    using l by (simp add: map_replicate_const)
  with f n m show ?thesis
    by (simp add: refreshUyuniUsersStatus_def r)
qed




lemma deleted_after_classification:
  "GetDeletedUsers (refreshUyuniUsersStatus sync) = GetDeletedUsers sync"
proof -
  note f = refreshUyuniUsersStatus_flags[of sync]
  have a: "\<And>u. in_users u (ldapusers (refreshUyuniUsersStatus sync)) = in_users u (ldapusers sync)"
    using f by (simp add: in_users_iff)
  have b: "\<And>u. \<not> in_users u (ldapusers sync) \<Longrightarrow>
             in_users u (uyuniusers (refreshUyuniUsersStatus sync)) = in_users u (uyuniusers sync)"
    using f by (auto simp: in_users_iff)
  show ?thesis
    unfolding GetDeletedUsers_def
    using a b refreshUyuniUsersStatus_frame[of sync]
    by (auto intro!: filter_cong)
qed

lemma count_list_distinct: "distinct xs \<Longrightarrow> x \<in> set xs \<Longrightarrow> count_list xs x = 1"
  by (induction xs) (auto simp: count_list_0_iff)

lemma since_append: "trace (uc sync') = trace (uc sync) @ cs \<Longrightarrow> since sync sync' = cs"
  by (simp add: since_def)

lemma SyncUsers_after_classification:
  assumes "listsRolesAsStrings (remote (uc sync))"
  shows "\<exists>failed sync'. SyncUsers (refreshUyuniUsersStatus sync) = Inr (failed, sync') \<and>
           trace (uc sync') = trace (uc sync) @ since sync sync' \<and>
           createdUids (since sync sync')
             = map Uid (filter IsNew (uyuniusers (refreshUyuniUsersStatus sync))) \<and>
           deletedUids (since sync sync') = map Uid (GetDeletedUsers sync)"
proof -
  let ?s = "refreshUyuniUsersStatus sync"
  have u: "uc ?s = uc sync" using refreshUyuniUsersStatus_frame[of sync] by simp
  from SyncUsers_returns[of ?s] assms u obtain failed sync' where
    r: "SyncUsers ?s = Inr (failed, sync')" by auto
  from SyncUsers_trace[of ?s] r obtain cs where
    t: "trace (uc sync') = trace (uc ?s) @ cs"
    and c: "createdUids cs = map Uid (filter IsNew (uyuniusers ?s))"
    and d: "deletedUids cs = map Uid (GetDeletedUsers ?s)"
    by (auto simp: stateOf_def)
  from t u have t': "trace (uc sync') = trace (uc sync) @ cs" by simp
  from since_append[OF t'] t' c d r show ?thesis
    by (simp add: deleted_after_classification)
qed


text \<open>
  C5. The users classified as deleted after classification are exactly the users of the
  full directory set whose uid is in the destination set and not in the staged set, and
  the push step asks for one deletion per such user, in order, and for no other: when the
  uids of the full set are pairwise different, the uid of each such user is deleted
  exactly once.
\<close>

theorem removed_users_are_deleted_once:
  assumes "listsRolesAsStrings (remote (uc sync))"
  shows "\<exists>failed sync'.
           SyncUsers (refreshUyuniUsersStatus sync) = Inr (failed, sync') \<and>
           trace (uc sync') = trace (uc sync) @ since sync sync' \<and>
           GetDeletedUsers (refreshUyuniUsersStatus sync)
             = filter (\<lambda>u. \<not> in_users u (ldapusers sync) \<and> in_users u (uyuniusers sync))
                 (allldapusers sync) \<and>
           deletedUids (since sync sync')
             = map Uid (filter (\<lambda>u. \<not> in_users u (ldapusers sync) \<and> in_users u (uyuniusers sync))
                          (allldapusers sync)) \<and>
           (distinct (map Uid (allldapusers sync)) \<longrightarrow>
              (\<forall>u \<in> set (allldapusers sync).
                 \<not> in_users u (ldapusers sync) \<and> in_users u (uyuniusers sync) \<longrightarrow>
                 count_list (deletedUids (since sync sync')) (Uid u) = 1))"
proof -
  from SyncUsers_after_classification[OF assms] obtain failed sync' where
    r: "SyncUsers (refreshUyuniUsersStatus sync) = Inr (failed, sync')"
    and t: "trace (uc sync') = trace (uc sync) @ since sync sync'"
    and d: "deletedUids (since sync sync') = map Uid (GetDeletedUsers sync)"
    by blast
  let ?gone = "filter (\<lambda>u. \<not> in_users u (ldapusers sync) \<and> in_users u (uyuniusers sync))
                 (allldapusers sync)"
  have g: "GetDeletedUsers sync = ?gone" by (simp add: GetDeletedUsers_def)
  have once: "count_list (deletedUids (since sync sync')) (Uid u) = 1"
    if "distinct (map Uid (allldapusers sync))" "u \<in> set (allldapusers sync)"
      "\<not> in_users u (ldapusers sync)" "in_users u (uyuniusers sync)" for u
  proof -
    from that(1) have "distinct (map Uid ?gone)" by (rule distinct_map_filter)
    moreover from that(2,3,4) have "Uid u \<in> set (map Uid ?gone)" by auto
    ultimately show ?thesis unfolding d g by (rule count_list_distinct)
  qed
  from r t d g once deleted_after_classification[of sync] show ?thesis
    by (intro exI[of _ failed] exI[of _ sync']) simp
qed
lemma uyuniServer_lists_strings: "listsRolesAsStrings uyuniServer"
  by (simp add: listsRolesAsStrings_def answer_def isStringArray_def list_all_iff)

lemma ready_remote: "remote (uc readySync) = uyuniServer"
  by (simp add: readySync_def connectedSync_def exampleSync_def NewLDAPSync_def referenceCaller_def)

lemma ready_lists:
  "ldapusers readySync = [aliceUser\<lparr>roles := [''org_admin'', ''channel_admin'']\<rparr>,
                          carolUser\<lparr>roles := [''satellite_admin'', ''org_admin'']\<rparr>]"
  "uyuniusers readySync = [bobUser\<lparr>Dn := [], roles := [''channel_admin'']\<rparr>,
                           carolUser\<lparr>Dn := [], roles := [''channel_admin'']\<rparr>]"
  "allldapusers readySync = [aliceUser, bobUser, carolUser, adminUser]"
  by (simp_all add: readySync_def)

lemma example_uids:
  "Uid aliceUser = ''alice''" "Uid bobUser = ''bob''" "Uid carolUser = ''carol''"
  "Uid adminUser = ''administrator''"
  "new aliceUser = False" "new bobUser = False" "new carolUser = False" "new adminUser = False"
  by (simp_all add: aliceUser_def bobUser_def carolUser_def adminUser_def NewUyuniUser_def)


theorem removed_users_are_deleted_once_witness:
  "map Uid (GetDeletedUsers (refreshUyuniUsersStatus readySync)) = [''bob''] \<and>
   deletedUids (since readySync (snd (projr (SyncUsers (refreshUyuniUsersStatus readySync))))) = [''bob''] \<and>
   count_list (deletedUids (since readySync (snd (projr (SyncUsers (refreshUyuniUsersStatus readySync))))))
     ''bob'' = 1"
proof -
  have shaped: "listsRolesAsStrings (remote (uc readySync))"
    by (simp add: ready_remote uyuniServer_lists_strings)
  from removed_users_are_deleted_once[OF shaped] obtain failed sync' where
    r: "SyncUsers (refreshUyuniUsersStatus readySync) = Inr (failed, sync')"
    and g: "GetDeletedUsers (refreshUyuniUsersStatus readySync)
             = filter (\<lambda>u. \<not> in_users u (ldapusers readySync) \<and> in_users u (uyuniusers readySync))
                 (allldapusers readySync)"
    and d: "deletedUids (since readySync sync')
             = map Uid (filter (\<lambda>u. \<not> in_users u (ldapusers readySync) \<and> in_users u (uyuniusers readySync))
                          (allldapusers readySync))"
    by blast
  show ?thesis
    by (simp add: r g d ready_lists example_uids)
qed

section \<open>The run up to classification: what it reads and whom it leaves out\<close>

lemma quiet_refl: "quiet sync sync"
  by (simp add: quiet_def)

lemma quiet_trans: "quiet a b \<Longrightarrow> quiet b c \<Longrightarrow> quiet a c"
  by (simp add: quiet_def)

lemma quiet_Errorf: "quiet sync (Errorf l sync)"
  by (simp add: quiet_def Errorf_def)

lemma newUserFromDN_state:
  "stateOf (newUserFromDN sync dn) snd = sync \<or>
   stateOf (newUserFromDN sync dn) snd = Errorf (ErrAmbiguousDN dn) sync"
  by (auto simp: newUserFromDN_def stateOf_def Let_def split: sum.splits list.splits)

lemma newUserFromDN_quiet:
  "quiet sync (stateOf (newUserFromDN sync dn) snd) \<and>
   ldapusers (stateOf (newUserFromDN sync dn) snd) = ldapusers sync \<and>
   allldapusers (stateOf (newUserFromDN sync dn) snd) = allldapusers sync"
  using newUserFromDN_state[of sync dn] quiet_refl[of sync] quiet_Errorf[of sync]
  by (auto simp: Errorf_def)

lemma mergeRolesByAttributes_Inl: "mergeRolesByAttributes sync dn user flt attr R = Inl (f, s) \<Longrightarrow> s = sync"
  by (auto simp: mergeRolesByAttributes_def split: sum.splits)

lemma mergeLoop_Inl: "mergeLoop sync sc entries user = Inl (f, s) \<Longrightarrow> s = sync"
proof (induction entries arbitrary: user)
  case Nil
  then show ?case by simp
next
  case (Cons e es)
  obtain dn R where e: "e = (dn, R)" by (cases e)
  from Cons show ?case
    by (auto simp: e split: sum.splits dest: mergeRolesByAttributes_Inl)
qed

lemma roleConfigsLoop_Inl: "roleConfigsLoop sync cfgs user = Inl (f, s) \<Longrightarrow> s = sync"
proof (induction cfgs arbitrary: user)
  case Nil
  then show ?case by simp
next
  case (Cons sc rest)
  then show ?case
    by (auto split: sum.splits dest: mergeLoop_Inl)
qed

lemma updateLDAPUserRoles_Inl: "updateLDAPUserRoles sync user = Inl (f, s) \<Longrightarrow> s = sync"
  by (simp add: updateLDAPUserRoles_def roleConfigsLoop_Inl)

lemma updateLDAPUserRoles_Uid: "updateLDAPUserRoles sync user = Inr user' \<Longrightarrow> Uid user' = Uid user"
  using roleConfigsLoop_Inr[of sync "roleConfigs sync" user user']
  by (simp add: updateLDAPUserRoles_def)

lemma stagedLoop_quiet:
  "quiet sync (stateOf (stagedLoop sync udns) (\<lambda>s. s)) \<and>
   allldapusers (stateOf (stagedLoop sync udns) (\<lambda>s. s)) = allldapusers sync \<and>
   (unfrozen (Frozen (cr sync)) (ldapusers sync) \<longrightarrow>
      unfrozen (Frozen (cr sync)) (ldapusers (stateOf (stagedLoop sync udns) (\<lambda>s. s))))"
proof (induction udns arbitrary: sync)
  case Nil
  then show ?case by (simp add: stateOf_def quiet_refl)
next
  case (Cons udn udns)
  note n = newUserFromDN_quiet[of sync udn]
  show ?case
  proof (cases "newUserFromDN sync udn")
    case (Inl x)
    with n show ?thesis by (auto simp: stateOf_def split: prod.splits)
  next
    case (Inr p)
    obtain user sync1 where p: "p = (user, sync1)" by (cases p)
    from n Inr p have q1: "quiet sync sync1" "ldapusers sync1 = ldapusers sync"
      "allldapusers sync1 = allldapusers sync"
      by (simp_all add: stateOf_def)
    then have cr1: "cr sync1 = cr sync" by (simp add: quiet_def)
    show ?thesis
    proof (cases "Uid user \<noteq> [] \<and> Uid user \<notin> set (Frozen (cr sync1))")
      case False
      with Inr p have e: "stagedLoop sync (udn # udns) = stagedLoop sync1 udns" by auto
      from Cons.IH[of sync1] q1 cr1 show ?thesis
        unfolding e by (auto simp: quiet_def)
    next
      case True
      show ?thesis
      proof (cases "updateLDAPUserRoles sync1 user")
        case (Inl y)
        obtain f s where y: "y = (f, s)" by (cases y)
        with Inl have "s = sync1" by (simp add: updateLDAPUserRoles_Inl)
        with Inr p True Inl y have e: "stagedLoop sync (udn # udns) = Inl (f, sync1)" by simp
        from q1 cr1 show ?thesis unfolding e by (simp add: stateOf_def)
      next
        case (Inr user')
        let ?s2 = "sync1\<lparr>ldapusers := ldapusers sync1 @ [user']\<rparr>"
        from \<open>newUserFromDN sync udn = Inr p\<close> p True Inr
        have e: "stagedLoop sync (udn # udns) = stagedLoop ?s2 udns" by simp
        have u: "Uid user' \<notin> set (Frozen (cr sync))"
          using True updateLDAPUserRoles_Uid[OF Inr] cr1 by simp
        have q2: "quiet sync ?s2" "allldapusers ?s2 = allldapusers sync" "cr ?s2 = cr sync"
          using q1 cr1 by (simp_all add: quiet_def)
        have "unfrozen (Frozen (cr sync)) (ldapusers sync) \<Longrightarrow> unfrozen (Frozen (cr ?s2)) (ldapusers ?s2)"
          using u q1 cr1 by (simp add: unfrozen_def)
        with Cons.IH[of ?s2] q2 show ?thesis
          unfolding e by (auto simp: quiet_def)
      qed
    qed
  qed
qed

lemma groupLoop_Inl: "groupLoop sync gdns udns = Inl (f, s) \<Longrightarrow> s = sync"
  by (induction gdns arbitrary: udns) (auto split: sum.splits)

lemma refreshStagedLDAPUsers_quiet:
  "quiet sync (stateOf (refreshStagedLDAPUsers sync) (\<lambda>s. s)) \<and>
   allldapusers (stateOf (refreshStagedLDAPUsers sync) (\<lambda>s. s)) = allldapusers sync \<and>
   (\<forall>sync'. refreshStagedLDAPUsers sync = Inr sync' \<longrightarrow> unfrozen (Frozen (cr sync)) (ldapusers sync'))"
proof -
  let ?s = "sync\<lparr>ldapusers := []\<rparr>"
  have q: "quiet sync ?s" "allldapusers ?s = allldapusers sync" "cr ?s = cr sync"
    "unfrozen (Frozen (cr ?s)) (ldapusers ?s)"
    by (simp_all add: quiet_def unfrozen_def)
  show ?thesis
  proof (cases "groupLoop ?s (map fst (Groups (cr ?s)) @ map fst (Roles (cr ?s))) []")
    case (Inl x)
    obtain f s where x: "x = (f, s)" by (cases x)
    with Inl have "s = ?s" by (simp add: groupLoop_Inl)
    with Inl x have e: "refreshStagedLDAPUsers sync = Inl (f, ?s)"
      by (simp add: refreshStagedLDAPUsers_def Let_def)
    show ?thesis unfolding e by (simp add: stateOf_def quiet_def)
  next
    case (Inr udns)
    then have e: "refreshStagedLDAPUsers sync = stagedLoop ?s udns"
      by (simp add: refreshStagedLDAPUsers_def Let_def)
    from stagedLoop_quiet[of ?s udns] q show ?thesis
      unfolding e by (auto simp: quiet_def stateOf_def)
  qed
qed

lemma allUsersLoop_quiet:
  "quiet sync (stateOf (allUsersLoop sync entries) (\<lambda>s. s)) \<and>
   ldapusers (stateOf (allUsersLoop sync entries) (\<lambda>s. s)) = ldapusers sync"
proof (induction entries arbitrary: sync)
  case Nil
  then show ?case by (simp add: stateOf_def quiet_refl)
next
  case (Cons entry entries)
  note n = newUserFromDN_quiet[of sync "DN entry"]
  show ?case
  proof (cases "newUserFromDN sync (DN entry)")
    case (Inl x)
    with n show ?thesis by (auto simp: stateOf_def split: prod.splits)
  next
    case (Inr p)
    obtain user sync1 where p: "p = (user, sync1)" by (cases p)
    let ?s2 = "sync1\<lparr>allldapusers := allldapusers sync1 @ [user]\<rparr>"
    from n Inr p have "quiet sync ?s2" "ldapusers ?s2 = ldapusers sync"
      by (simp_all add: stateOf_def quiet_def)
    with Cons.IH[of ?s2] Inr p show ?thesis
      by (auto simp: quiet_def)
  qed
qed

lemma refreshAllLDAPUsers_quiet:
  "quiet sync (stateOf (refreshAllLDAPUsers sync) (\<lambda>s. s)) \<and>
   ldapusers (stateOf (refreshAllLDAPUsers sync) (\<lambda>s. s)) = ldapusers sync"
proof -
  let ?s = "sync\<lparr>allldapusers := []\<rparr>"
  let ?req = "NewSearchRequest (Allusers (cr ?s)) ''(objectClass=organizationalPerson)''"
  have q: "quiet sync ?s" "ldapusers ?s = ldapusers sync" by (simp_all add: quiet_def)
  show ?thesis
  proof (cases "Search (lc ?s) ?req")
    case (Inl f)
    then have e: "refreshAllLDAPUsers sync = Inl (f, ?s)"
      by (simp add: refreshAllLDAPUsers_def Let_def)
    show ?thesis unfolding e by (simp add: stateOf_def quiet_def)
  next
    case (Inr entries)
    then have e: "refreshAllLDAPUsers sync = allUsersLoop ?s entries"
      by (simp add: refreshAllLDAPUsers_def Let_def)
    from allUsersLoop_quiet[of ?s entries] q show ?thesis
      unfolding e by (auto simp: quiet_def)
  qed
qed
lemma heard_refl: "heard sync sync []"
  by (simp add: heard_def)

lemma heard_trans: "heard a b cs \<Longrightarrow> heard b c ds \<Longrightarrow> heard a c (cs @ ds)"
  by (simp add: heard_def)

lemma said_heard: "said sync sync' cs \<Longrightarrow> heard sync sync' cs"
  by (simp add: said_def heard_def)

lemma quiet_heard: "quiet sync sync' \<Longrightarrow> heard sync sync' []"
  by (simp add: quiet_def heard_def)

lemma verifyLoop_said:
  "\<exists>cs. said sync (stateOf (verifyLoop sync uids) snd) cs \<and> (\<forall>c \<in> set cs. target c = None)"
proof (induction uids arbitrary: sync)
  case Nil
  then show ?case using said_refl[of sync] by (auto simp: stateOf_def)
next
  case (Cons uid uids)
  obtain res sync1 where c: "call sync (UserListRoles uid) = (res, sync1)"
    by (cases "call sync (UserListRoles uid)")
  have one: "said sync sync1 [UserListRoles uid]" by (rule said_call[OF c])
  show ?case
  proof (cases res)
    case (Inl err)
    from Cons.IH[of "Errorf (ErrNoFrozenUser uid) sync1"] obtain cs where
      "said (Errorf (ErrNoFrozenUser uid) sync1)
         (stateOf (verifyLoop (Errorf (ErrNoFrozenUser uid) sync1) uids) snd) cs"
      "\<forall>c \<in> set cs. target c = None" by blast
    with said_trans[OF said_call_Errorf[OF c, of "ErrNoFrozenUser uid"]] c Inl show ?thesis
      by (intro exI[of _ "UserListRoles uid # cs"]) auto
  next
    case (Inr v)
    from Cons.IH[of sync1] obtain cs where
      i: "said sync1 (stateOf (verifyLoop sync1 uids) snd) cs" "\<forall>c \<in> set cs. target c = None"
      by blast
    show ?thesis
    proof (cases "\<exists>rs. v = XArray rs \<and> hasOrgAdmin rs = Some False")
      case True
      with c Inr have "verifyLoop sync (uid # uids) = verifyLoop sync1 uids" by auto
      with said_trans[OF one i(1)] i(2) show ?thesis
        by (intro exI[of _ "UserListRoles uid # cs"]) auto
    next
      case False
      with c Inr have "stateOf (verifyLoop sync (uid # uids)) snd = sync1"
        by (auto simp: stateOf_def split: xval.splits option.splits bool.splits)
      with one show ?thesis
        by (intro exI[of _ "[UserListRoles uid]"]) auto
    qed
  qed
qed

lemma verifyIgnoredUsers_said:
  "\<exists>cs. said sync (stateOf (verifyIgnoredUsers sync) (\<lambda>s. s)) cs \<and> (\<forall>c \<in> set cs. target c = None)"
proof -
  have "stateOf (verifyIgnoredUsers sync) (\<lambda>s. s) = stateOf (verifyLoop sync (Frozen (cr sync))) snd"
    by (auto simp: verifyIgnoredUsers_def stateOf_def split: sum.splits prod.splits)
  with verifyLoop_said[of sync "Frozen (cr sync)"] show ?thesis by simp
qed

lemma addReplyRoles_keeps:
  "addReplyRoles rs user = Some user' \<Longrightarrow> Uid user' = Uid user \<and> new user' = new user"
proof (induction rs arbitrary: user)
  case Nil
  then show ?case by simp
next
  case (Cons r rs)
  then show ?case
    by (cases r) (auto simp: AddRoles_Uid AddRoles_new dest!: Cons.IH)
qed

lemma existingUser_said:
  "\<exists>cs. said sync (stateOf (existingUser sync uid) snd) cs \<and> (\<forall>c \<in> set cs. target c = None) \<and>
        (\<forall>user sync'. existingUser sync uid = Inr (user, sync') \<longrightarrow> Uid user = uid \<and> \<not> IsNew user)"
proof -
  obtain res sync1 where c: "call sync (UserGetDetails uid) = (res, sync1)"
    by (cases "call sync (UserGetDetails uid)")
  have one: "said sync sync1 [UserGetDetails uid]" by (rule said_call[OF c])
  let ?stop1 = "stateOf (existingUser sync uid) snd = sync1 \<and> isl (existingUser sync uid)"
  show ?thesis
  proof (cases "\<exists>m e f l. res = Inr (XStruct m) \<and> stringField m ''email'' = Some e \<and>
                  stringField m ''first_name'' = Some f \<and> stringField m ''last_name'' = Some l")
    case False
    with c have ?stop1
      by (auto simp: existingUser_def stateOf_def NewUyuniUser_def
          split: sum.splits xval.splits option.splits)
    with one show ?thesis
      by (intro exI[of _ "[UserGetDetails uid]"]) (auto simp: isl_def)
  next
    case True
    then obtain m e f l where m: "res = Inr (XStruct m)" "stringField m ''email'' = Some e"
      "stringField m ''first_name'' = Some f" "stringField m ''last_name'' = Some l" by blast
    let ?user = "NewUyuniUser\<lparr>Uid := uid, Email := e, Name := f, Secondname := l\<rparr>"
    obtain res2 sync2 where c2: "call sync1 (UserListRoles uid) = (res2, sync2)"
      by (cases "call sync1 (UserListRoles uid)")
    have two: "said sync sync2 [UserGetDetails uid, UserListRoles uid]"
      using said_trans[OF one said_call[OF c2]] by simp
    have e: "existingUser sync uid =
               (case res2 of
                  Inl err \<Rightarrow> Inl (FatalCall err, sync2)
                | Inr res' \<Rightarrow>
                    (case res' of
                       XArray rs \<Rightarrow>
                         (case addReplyRoles rs ?user of
                            None \<Rightarrow> Inl (Panic, sync2)
                          | Some user' \<Rightarrow> Inr (user', sync2))
                     | _ \<Rightarrow> Inl (Panic, sync2)))"
      using c m c2 by (simp add: existingUser_def)
    have st: "stateOf (existingUser sync uid) snd = sync2"
      unfolding e by (auto simp: stateOf_def split: sum.splits xval.splits option.splits)
    have ok: "Uid user = uid \<and> \<not> IsNew user" if "existingUser sync uid = Inr (user, sync')" for user sync'
    proof -
      from that obtain rs where "addReplyRoles rs ?user = Some user"
        unfolding e by (auto split: sum.splits xval.splits option.splits)
      from addReplyRoles_keeps[OF this] show ?thesis
        by (simp add: IsNew_def NewUyuniUser_def)
    qed
    from two st ok show ?thesis
      by (intro exI[of _ "[UserGetDetails uid, UserListRoles uid]"]) auto
  qed
qed

lemma existingLoop_heard:
  "\<exists>cs. heard sync (stateOf (existingLoop sync us) (\<lambda>s. s)) cs \<and> (\<forall>c \<in> set cs. target c = None) \<and>
        (unfrozen (Frozen (cr sync)) (uyuniusers sync) \<longrightarrow>
           unfrozen (Frozen (cr sync)) (uyuniusers (stateOf (existingLoop sync us) (\<lambda>s. s)))) \<and>
        (list_all (\<lambda>u. \<not> IsNew u) (uyuniusers sync) \<longrightarrow>
           list_all (\<lambda>u. \<not> IsNew u) (uyuniusers (stateOf (existingLoop sync us) (\<lambda>s. s))))"
proof (induction us arbitrary: sync)
  case Nil
  then show ?case using heard_refl[of sync] by (auto simp: stateOf_def)
next
  case (Cons usrdata rest)
  show ?case
  proof (cases "\<exists>m uid. usrdata = XStruct m \<and> stringField m ''login'' = Some uid")
    case False
    then have "stateOf (existingLoop sync (usrdata # rest)) (\<lambda>s. s) = sync"
      by (auto simp: stateOf_def split: xval.splits option.splits)
    with heard_refl[of sync] show ?thesis by (intro exI[of _ "[]"]) auto
  next
    case True
    then obtain m uid where m: "usrdata = XStruct m" "stringField m ''login'' = Some uid" by blast
    show ?thesis
    proof (cases "uid \<in> set (Frozen (cr sync))")
      case True
      with m have "existingLoop sync (usrdata # rest) = existingLoop sync rest" by simp
      with Cons.IH[of sync] show ?thesis by simp
    next
      case False
      from existingUser_said[of sync uid] obtain cs1 where
        s1: "said sync (stateOf (existingUser sync uid) snd) cs1"
        and r1: "\<forall>c \<in> set cs1. target c = None"
        and u1: "\<forall>user sync'. existingUser sync uid = Inr (user, sync') \<longrightarrow> Uid user = uid \<and> \<not> IsNew user"
        by blast
      show ?thesis
      proof (cases "existingUser sync uid")
        case (Inl x)
        with m False have e: "existingLoop sync (usrdata # rest) = Inl x" by simp
        from s1 Inl have "said sync (snd x) cs1" by (simp add: stateOf_def split: prod.splits)
        then show ?thesis
          unfolding e using r1
          by (intro exI[of _ cs1]) (auto simp: stateOf_def said_def heard_def split: prod.splits)
      next
        case (Inr p)
        obtain user sync1 where p: "p = (user, sync1)" by (cases p)
        let ?s2 = "sync1\<lparr>uyuniusers := uyuniusers sync1 @ [user]\<rparr>"
        from m False Inr p have e: "existingLoop sync (usrdata # rest) = existingLoop ?s2 rest"
          by simp
        from s1 Inr p have s1': "said sync sync1 cs1" by (simp add: stateOf_def)
        from u1 Inr p have uu: "Uid user = uid" "\<not> IsNew user" by auto
        have h2: "heard sync ?s2 cs1" "cr ?s2 = cr sync"
          using s1' by (simp_all add: said_def heard_def)
        have inv: "unfrozen (Frozen (cr sync)) (uyuniusers sync) \<Longrightarrow>
                     unfrozen (Frozen (cr ?s2)) (uyuniusers ?s2)"
          "list_all (\<lambda>u. \<not> IsNew u) (uyuniusers sync) \<Longrightarrow> list_all (\<lambda>u. \<not> IsNew u) (uyuniusers ?s2)"
          using s1' uu False by (simp_all add: said_def unfrozen_def)
        from Cons.IH[of ?s2] obtain cs where
          i: "heard ?s2 (stateOf (existingLoop ?s2 rest) (\<lambda>s. s)) cs" "\<forall>c \<in> set cs. target c = None"
          "unfrozen (Frozen (cr ?s2)) (uyuniusers ?s2) \<longrightarrow>
             unfrozen (Frozen (cr ?s2)) (uyuniusers (stateOf (existingLoop ?s2 rest) (\<lambda>s. s)))"
          "list_all (\<lambda>u. \<not> IsNew u) (uyuniusers ?s2) \<longrightarrow>
             list_all (\<lambda>u. \<not> IsNew u) (uyuniusers (stateOf (existingLoop ?s2 rest) (\<lambda>s. s)))"
          by blast
        let ?end = "stateOf (existingLoop ?s2 rest) (\<lambda>s. s)"
        have a: "heard sync ?end (cs1 @ cs)" by (rule heard_trans[OF h2(1) i(1)])
        have b: "\<forall>c \<in> set (cs1 @ cs). target c = None" using r1 i(2) by auto
        have c: "unfrozen (Frozen (cr sync)) (uyuniusers sync) \<longrightarrow>
                   unfrozen (Frozen (cr sync)) (uyuniusers ?end)"
          using inv(1) i(3) unfolding h2(2) by blast
        have d: "list_all (\<lambda>u. \<not> IsNew u) (uyuniusers sync) \<longrightarrow>
                   list_all (\<lambda>u. \<not> IsNew u) (uyuniusers ?end)"
          using inv(2) i(4) by blast
        from a b c d show ?thesis
          unfolding e by (intro exI[of _ "cs1 @ cs"] conjI)
      qed
    qed
  qed
qed

lemma refreshExistingUyuniUsers_heard:
  "\<exists>cs. heard sync (stateOf (refreshExistingUyuniUsers sync) (\<lambda>s. s)) cs \<and>
        (\<forall>c \<in> set cs. target c = None) \<and>
        unfrozen (Frozen (cr sync)) (uyuniusers (stateOf (refreshExistingUyuniUsers sync) (\<lambda>s. s))) \<and>
        list_all (\<lambda>u. \<not> IsNew u) (uyuniusers (stateOf (refreshExistingUyuniUsers sync) (\<lambda>s. s)))"
proof -
  let ?s = "sync\<lparr>uyuniusers := []\<rparr>"
  obtain res sync1 where c: "call ?s UserListUsers = (res, sync1)"
    by (cases "call ?s UserListUsers")
  from said_call[OF c] have h1: "heard sync sync1 [UserListUsers]" "uyuniusers sync1 = []"
    "cr sync1 = cr sync"
    by (simp_all add: said_def heard_def)
  show ?thesis
  proof (cases "\<exists>us. res = Inr (XArray us)")
    case False
    with c have "stateOf (refreshExistingUyuniUsers sync) (\<lambda>s. s) = sync1"
      by (auto simp: refreshExistingUyuniUsers_def stateOf_def Let_def split: sum.splits xval.splits)
    with h1 show ?thesis
      by (intro exI[of _ "[UserListUsers]"]) (simp add: unfrozen_def)
  next
    case True
    then obtain us where "res = Inr (XArray us)" by blast
    with c have e: "refreshExistingUyuniUsers sync = existingLoop sync1 us"
      by (simp add: refreshExistingUyuniUsers_def Let_def)
    from existingLoop_heard[of sync1 us] h1 obtain cs where
      "heard sync1 (stateOf (existingLoop sync1 us) (\<lambda>s. s)) cs" "\<forall>c \<in> set cs. target c = None"
      "unfrozen (Frozen (cr sync)) (uyuniusers (stateOf (existingLoop sync1 us) (\<lambda>s. s)))"
      "list_all (\<lambda>u. \<not> IsNew u) (uyuniusers (stateOf (existingLoop sync1 us) (\<lambda>s. s)))"
      by (auto simp: unfrozen_def)
    with heard_trans[OF h1(1)] show ?thesis
      unfolding e by (intro exI[of _ "UserListUsers # cs"]) auto
  qed
qed

lemma unfrozen_by_uids:
  "set (map Uid users') \<subseteq> set (map Uid users) \<Longrightarrow> unfrozen frozen users \<Longrightarrow> unfrozen frozen users'"
  by (auto simp: unfrozen_def list_all_iff)

lemma refreshUyuniUsersStatus_unfrozen:
  assumes "unfrozen frozen (ldapusers sync)" and "unfrozen frozen (uyuniusers sync)"
  shows "unfrozen frozen (ldapusers (refreshUyuniUsersStatus sync)) \<and>
         unfrozen frozen (uyuniusers (refreshUyuniUsersStatus sync))"
proof -
  from refreshUyuniUsersStatus_flags[of sync]
  have l: "map Uid (ldapusers (refreshUyuniUsersStatus sync)) = map Uid (ldapusers sync)"
    and u: "map Uid (uyuniusers (refreshUyuniUsersStatus sync))
              = map Uid (uyuniusers sync)
                @ map Uid (filter (\<lambda>d. \<not> in_users d (uyuniusers sync)) (ldapusers sync))"
    by simp_all
  have "set (map Uid (ldapusers (refreshUyuniUsersStatus sync))) \<subseteq> set (map Uid (ldapusers sync))"
    unfolding l by simp
  then have a: "unfrozen frozen (ldapusers (refreshUyuniUsersStatus sync))"
    using assms(1) by (rule unfrozen_by_uids)
  have b0: "unfrozen frozen (uyuniusers sync @ ldapusers sync)"
    using assms by (simp add: unfrozen_def)
  have "set (map Uid (uyuniusers (refreshUyuniUsersStatus sync)))
          \<subseteq> set (map Uid (uyuniusers sync @ ldapusers sync))"
    unfolding u by auto
  then have "unfrozen frozen (uyuniusers (refreshUyuniUsersStatus sync))"
    using b0 by (rule unfrozen_by_uids)
  with a show ?thesis by simp
qed

lemma stateOf_Inl: "stateOf (Inl x) f = snd x"
  by (simp add: stateOf_def split: prod.splits)

lemma stateOf_Inr: "stateOf (Inr a) f = f a"
  by (simp add: stateOf_def)

lemma Start_heard:
  "\<exists>cs. heard sync (stateOf (Start dial sync) (\<lambda>s. s)) cs \<and> (\<forall>c \<in> set cs. target c = None) \<and>
        (\<forall>sync1. Start dial sync = Inr sync1 \<longrightarrow>
           unfrozen (Frozen (cr sync)) (ldapusers sync1) \<and>
           unfrozen (Frozen (cr sync)) (uyuniusers sync1))"
proof (cases "Connect dial (lc sync)")
  case (Inl f)
  then have "Start dial sync = Inl (f, sync)" by (simp add: Start_def)
  then show ?thesis
    using heard_refl[of sync] by (intro exI[of _ "[]"]) (simp add: stateOf_def)
next
  case (Inr c)
  let ?s0 = "sync\<lparr>lc := c\<rparr>"
  have h0: "heard sync ?s0 []" by (simp add: heard_def)
  from verifyIgnoredUsers_said[of ?s0] obtain cs1 where
    s1: "said ?s0 (stateOf (verifyIgnoredUsers ?s0) (\<lambda>s. s)) cs1"
    and r1: "\<forall>c \<in> set cs1. target c = None" by blast
  have h1: "heard sync (stateOf (verifyIgnoredUsers ?s0) (\<lambda>s. s)) cs1"
    using heard_trans[OF h0 said_heard[OF s1]] by simp
  show ?thesis
  proof (cases "verifyIgnoredUsers ?s0")
    case (Inl x)
    with Inr have e: "Start dial sync = Inl x" by (simp add: Start_def andThen_def)
    from h1 Inl r1 show ?thesis
      unfolding e by (intro exI[of _ cs1]) (simp add: stateOf_def)
  next
    case (Inr sync1)
    note v = Inr
    with h1 have h1': "heard sync sync1 cs1" by (simp add: stateOf_def)
    then have cr1: "cr sync1 = cr sync" by (simp add: heard_def)
    from refreshExistingUyuniUsers_heard[of sync1] obtain cs2 where
      s2: "heard sync1 (stateOf (refreshExistingUyuniUsers sync1) (\<lambda>s. s)) cs2"
      and r2: "\<forall>c \<in> set cs2. target c = None"
      and u2: "unfrozen (Frozen (cr sync1)) (uyuniusers (stateOf (refreshExistingUyuniUsers sync1) (\<lambda>s. s)))"
      by blast
    have h2: "heard sync (stateOf (refreshExistingUyuniUsers sync1) (\<lambda>s. s)) (cs1 @ cs2)"
      by (rule heard_trans[OF h1' s2])
    have r12: "\<forall>c \<in> set (cs1 @ cs2). target c = None" using r1 r2 by auto
    show ?thesis
    proof (cases "refreshExistingUyuniUsers sync1")
      case (Inl x)
      with \<open>Connect dial (lc sync) = Inr c\<close> v have e: "Start dial sync = Inl x"
        by (simp add: Start_def andThen_def)
      from h2 Inl r12 show ?thesis
        unfolding e by (intro exI[of _ "cs1 @ cs2"]) (simp add: stateOf_def)
    next
      case (Inr sync2)
      note x = Inr
      with h2 u2 cr1 have h2': "heard sync sync2 (cs1 @ cs2)"
        and u2': "unfrozen (Frozen (cr sync)) (uyuniusers sync2)"
        by (simp_all add: stateOf_def)
      from h2' have cr2: "cr sync2 = cr sync" by (simp add: heard_def)
      note q3 = refreshStagedLDAPUsers_quiet[of sync2]
      show ?thesis
      proof (cases "refreshStagedLDAPUsers sync2")
        case (Inl y)
        with \<open>Connect dial (lc sync) = Inr c\<close> v x have e: "Start dial sync = Inl y"
          by (simp add: Start_def andThen_def)
        from q3 Inl have "heard sync2 (snd y) []"
          by (auto simp: stateOf_def intro: quiet_heard split: prod.splits)
        from heard_trans[OF h2' this] r12 show ?thesis
          unfolding e by (intro exI[of _ "cs1 @ cs2"]) (simp add: stateOf_Inl)
      next
        case (Inr sync3)
        note st = Inr
        with q3 cr2 have q3': "quiet sync2 sync3" and u3: "unfrozen (Frozen (cr sync)) (ldapusers sync3)"
          by (simp_all add: stateOf_def)
        note q4 = refreshAllLDAPUsers_quiet[of sync3]
        show ?thesis
        proof (cases "refreshAllLDAPUsers sync3")
          case (Inl y)
          with \<open>Connect dial (lc sync) = Inr c\<close> v x st have e: "Start dial sync = Inl y"
            by (simp add: Start_def andThen_def)
          from q4 Inl have "quiet sync3 (snd y)" by (auto simp: stateOf_def split: prod.splits)
          from heard_trans[OF h2' quiet_heard[OF quiet_trans[OF q3' this]]] r12 show ?thesis
            unfolding e by (intro exI[of _ "cs1 @ cs2"]) (simp add: stateOf_Inl)
        next
          case (Inr sync4)
          with q4 have q4': "quiet sync3 sync4" and l4: "ldapusers sync4 = ldapusers sync3"
            by (simp_all add: stateOf_def)
          have q24: "quiet sync2 sync4" by (rule quiet_trans[OF q3' q4'])
          then have u4: "uyuniusers sync4 = uyuniusers sync2" by (simp add: quiet_def)
          from \<open>Connect dial (lc sync) = Inr c\<close> v x st Inr
          have e: "Start dial sync = Inr (refreshUyuniUsersStatus sync4)"
            by (simp add: Start_def andThen_def)
          have "heard sync4 (refreshUyuniUsersStatus sync4) []"
            using refreshUyuniUsersStatus_frame[of sync4] by (simp add: heard_def)
          from heard_trans[OF heard_trans[OF h2' quiet_heard[OF q24]] this]
          have h: "heard sync (refreshUyuniUsersStatus sync4) (cs1 @ cs2)" by simp
          from refreshUyuniUsersStatus_unfrozen[of "Frozen (cr sync)" sync4] u3 u2' l4 u4
          have "unfrozen (Frozen (cr sync)) (ldapusers (refreshUyuniUsersStatus sync4)) \<and>
                unfrozen (Frozen (cr sync)) (uyuniusers (refreshUyuniUsersStatus sync4))"
            by simp
          with h r12 show ?thesis
            unfolding e by (intro exI[of _ "cs1 @ cs2"]) (simp add: stateOf_def)
        qed
      qed
    qed
  qed
qed

lemma reads_write_nothing: "\<forall>c \<in> set cs. target c = None \<Longrightarrow> writeTargets cs = []"
  by (induction cs) (simp_all add: writeTargets_def List.map_filter_simps)

lemma heard_since: "heard sync sync' cs \<Longrightarrow> since sync sync' = cs"
  by (simp add: heard_def since_def)

text \<open>
  C2. No write call of a run ever targets a frozen uid. Up to the end of classification
  (\<^verbatim>\<open>Start\<close>) the run makes read calls only, however it ends. When it gets that far,
  no staged user, no destination user and no user that would be classified as deleted has
  a frozen uid, and every write call of the push step that follows (\<^verbatim>\<open>SyncUsers\<close>,
  however it ends) targets a uid that is not frozen.
\<close>

theorem frozen_uids_are_never_written:
  "trace (uc (stateOf (Start dial sync) (\<lambda>s. s)))
     = trace (uc sync) @ since sync (stateOf (Start dial sync) (\<lambda>s. s)) \<and>
   writeTargets (since sync (stateOf (Start dial sync) (\<lambda>s. s))) = [] \<and>
   (\<forall>sync1. Start dial sync = Inr sync1 \<longrightarrow>
      unfrozen (Frozen (cr sync)) (ldapusers sync1) \<and>
      unfrozen (Frozen (cr sync)) (uyuniusers sync1) \<and>
      unfrozen (Frozen (cr sync)) (GetDeletedUsers sync1) \<and>
      trace (uc (stateOf (SyncUsers sync1) snd))
        = trace (uc sync1) @ since sync1 (stateOf (SyncUsers sync1) snd) \<and>
      set (writeTargets (since sync1 (stateOf (SyncUsers sync1) snd))) \<inter> set (Frozen (cr sync)) = {})"
proof -
  from Start_heard[of sync dial] obtain cs where
    h: "heard sync (stateOf (Start dial sync) (\<lambda>s. s)) cs" and r: "\<forall>c \<in> set cs. target c = None"
    and u: "\<forall>sync1. Start dial sync = Inr sync1 \<longrightarrow>
           unfrozen (Frozen (cr sync)) (ldapusers sync1) \<and>
           unfrozen (Frozen (cr sync)) (uyuniusers sync1)"
    by blast
  have a: "trace (uc (stateOf (Start dial sync) (\<lambda>s. s)))
             = trace (uc sync) @ since sync (stateOf (Start dial sync) (\<lambda>s. s))"
    using h heard_since[OF h] by (simp add: heard_def)
  have b: "writeTargets (since sync (stateOf (Start dial sync) (\<lambda>s. s))) = []"
    using heard_since[OF h] reads_write_nothing[OF r] by simp
  have c: "unfrozen (Frozen (cr sync)) (ldapusers sync1) \<and>
      unfrozen (Frozen (cr sync)) (uyuniusers sync1) \<and>
      unfrozen (Frozen (cr sync)) (GetDeletedUsers sync1) \<and>
      trace (uc (stateOf (SyncUsers sync1) snd))
        = trace (uc sync1) @ since sync1 (stateOf (SyncUsers sync1) snd) \<and>
      set (writeTargets (since sync1 (stateOf (SyncUsers sync1) snd))) \<inter> set (Frozen (cr sync)) = {}"
    if s: "Start dial sync = Inr sync1" for sync1
  proof -
    from u s have u1: "unfrozen (Frozen (cr sync)) (ldapusers sync1)"
      "unfrozen (Frozen (cr sync)) (uyuniusers sync1)" by simp_all
    have "set (map Uid (GetDeletedUsers sync1)) \<subseteq> set (map Uid (uyuniusers sync1))"
      using GetDeletedUsers_known[of sync1] by simp
    then have u2: "unfrozen (Frozen (cr sync)) (GetDeletedUsers sync1)"
      using u1(2) by (rule unfrozen_by_uids)
    from SyncUsers_trace[of sync1] obtain ds where
      t: "trace (uc (stateOf (SyncUsers sync1) snd)) = trace (uc sync1) @ ds"
      and w: "set (writeTargets ds) \<subseteq> Uid ` set (uyuniusers sync1)"
      by blast
    have sn: "since sync1 (stateOf (SyncUsers sync1) snd) = ds"
      by (rule since_append[OF t])
    have "set (writeTargets ds) \<inter> set (Frozen (cr sync)) = {}"
      using w u1(2) by (auto simp: unfrozen_def list_all_iff)
    with u1 u2 t sn show ?thesis by simp
  qed
  from a b c show ?thesis by blast
qed

lemma start_example:
  "\<exists>sync1. Start exampleDial exampleSync = Inr sync1 \<and>
      map Uid (ldapusers sync1) = [''alice'', ''carol''] \<and>
      map Uid (uyuniusers sync1) = [''bob'', ''carol'', ''alice''] \<and>
      map Uid (allldapusers sync1) = [''alice'', ''bob'', ''carol'', ''administrator''] \<and>
      Frozen (cr sync1) = [''administrator''] \<and>
      trace (uc sync1) = [UserListRoles ''administrator'', UserListUsers, UserGetDetails ''bob'',
                          UserListRoles ''bob'', UserGetDetails ''carol'', UserListRoles ''carol'']"
  by (simp add: Start_def andThen_def Connect_def exampleDial_def exampleSync_def NewLDAPSync_def
      NewLDAPCaller_def SetHost_def SetPort_def SetUser_def SetPassword_def referenceCaller_def
      verifyIgnoredUsers_def call_def Call_def exampleConfig_def exampleAccounts_def answer_def known_def
      rolesOf_def refreshExistingUyuniUsers_def existingUser_def stringField_def NewUyuniUser_def
      AddRoles_def addRole_def refreshStagedLDAPUsers_def Search_def exampleConn_def
      entriesUnder_def exampleTree_def NewSearchRequest_def GetAttributeValues_def
      GetAttributeValue_def setKey_def newUserFromDN_def getAttributeNameFor_def
      aliceEntry_def bobEntry_def carolEntry_def adminEntry_def Errorf_def
      updateLDAPUserRoles_def mergeRolesByAttributes_def mergeValues_def
      refreshAllLDAPUsers_def refreshUyuniUsersStatus_def classify_def compareWith_def
      IsNew_def Clone_def CompareRoles_def overwrite_def GetRoles_def FlushRoles_def Let_def)

text \<open>
  The user lists of \<^verbatim>\<open>readySync\<close> are the ones that run has when classification
  begins: after classification both states have the same three lists.
\<close>

lemma start_example_lists:
  "\<exists>sync1. Start exampleDial exampleSync = Inr sync1 \<and>
      ldapusers sync1 = ldapusers (refreshUyuniUsersStatus readySync) \<and>
      uyuniusers sync1 = uyuniusers (refreshUyuniUsersStatus readySync) \<and>
      allldapusers sync1 = allldapusers (refreshUyuniUsersStatus readySync)"
  by (simp add: Start_def andThen_def Connect_def exampleDial_def exampleSync_def NewLDAPSync_def
      NewLDAPCaller_def SetHost_def SetPort_def SetUser_def SetPassword_def referenceCaller_def
      verifyIgnoredUsers_def call_def Call_def exampleConfig_def exampleAccounts_def answer_def known_def
      rolesOf_def refreshExistingUyuniUsers_def existingUser_def stringField_def NewUyuniUser_def
      AddRoles_def addRole_def refreshStagedLDAPUsers_def Search_def exampleConn_def
      entriesUnder_def exampleTree_def NewSearchRequest_def GetAttributeValues_def
      GetAttributeValue_def setKey_def newUserFromDN_def getAttributeNameFor_def
      aliceEntry_def bobEntry_def carolEntry_def adminEntry_def Errorf_def
      updateLDAPUserRoles_def mergeRolesByAttributes_def mergeValues_def
      refreshAllLDAPUsers_def refreshUyuniUsersStatus_def classify_def compareWith_def
      IsNew_def Clone_def CompareRoles_def overwrite_def GetRoles_def FlushRoles_def Let_def
      readySync_def connectedSync_def aliceUser_def bobUser_def carolUser_def adminUser_def)

theorem frozen_uids_are_never_written_witness:
  "\<exists>sync1. Start exampleDial exampleSync = Inr sync1 \<and>
      writeTargets (since exampleSync sync1) = [] \<and>
      unfrozen [''administrator''] (ldapusers sync1) \<and>
      unfrozen [''administrator''] (uyuniusers sync1) \<and>
      unfrozen [''administrator''] (GetDeletedUsers sync1) \<and>
      set (writeTargets (since sync1 (stateOf (SyncUsers sync1) snd))) \<inter> {''administrator''} = {}"
proof -
  from start_example obtain sync1 where s: "Start exampleDial exampleSync = Inr sync1" by blast
  have f: "Frozen (cr exampleSync) = [''administrator'']"
    by (simp add: exampleSync_def NewLDAPSync_def exampleConfig_def)
  from frozen_uids_are_never_written[of exampleDial exampleSync] s show ?thesis
    by (intro exI[of _ sync1]) (simp add: f stateOf_Inr)
qed


section \<open>The lockout guard\<close>

lemma hasOrgAdmin_True: "hasOrgAdmin rs = Some True \<Longrightarrow> XString ''org_admin'' \<in> set rs"
  by (induction rs) (auto split: xval.splits if_splits)

lemma hasOrgAdmin_strings:
  "list_all (\<lambda>x. case x of XString _ \<Rightarrow> True | _ \<Rightarrow> False) rs \<Longrightarrow> hasOrgAdmin rs \<noteq> None"
  by (induction rs) (auto split: xval.splits)

lemma call_server:
  "call sync request = (res, sync') \<Longrightarrow>
     res = fst (remote (uc sync) (server (uc sync)) request) \<and>
     server (uc sync') = snd (remote (uc sync) (server (uc sync)) request)"
  by (auto simp: call_def Call_def split: prod.splits)

lemma verifyLoop_locked:
  assumes "remote (uc sync) = rem" and "server (uc sync) = s"
    and "\<forall>uid \<in> set uids. case rem s (UserListRoles uid) of
                              (res, s') \<Rightarrow> s' = s \<and> \<not> listsRole res ''org_admin''"
  shows "\<exists>sync' k. (verifyLoop sync uids = Inr (False, sync') \<or> verifyLoop sync uids = Inl (Panic, sync')) \<and>
           said sync sync' (map UserListRoles (take k uids)) \<and>
           (listsRolesAsStrings rem \<longrightarrow>
              verifyLoop sync uids = Inr (False, sync') \<and> take k uids = uids)"
  using assms
proof (induction uids arbitrary: sync)
  case Nil
  then show ?case using said_refl[of sync] by (intro exI[of _ sync] exI[of _ 0]) simp
next
  case (Cons uid uids)
  obtain res sync1 where c: "call sync (UserListRoles uid) = (res, sync1)"
    by (cases "call sync (UserListRoles uid)")
  have one: "said sync sync1 [UserListRoles uid]" by (rule said_call[OF c])
  from call_server[OF c] Cons.prems have res: "res = fst (rem s (UserListRoles uid))"
    and srv: "server (uc sync1) = snd (rem s (UserListRoles uid))" by simp_all
  from Cons.prems(3) have here: "snd (rem s (UserListRoles uid)) = s" "\<not> listsRole res ''org_admin''"
    by (auto simp: res split: prod.splits)
  have rest: "\<forall>uid \<in> set uids. case rem s (UserListRoles uid) of
                              (res, s') \<Rightarrow> s' = s \<and> \<not> listsRole res ''org_admin''"
    using Cons.prems(3) by simp
  have rem1: "remote (uc sync1) = rem" "server (uc sync1) = s"
    using one Cons.prems(1) srv here(1) by (simp_all add: said_def)
  have shaped: "listsRolesAsStrings rem \<Longrightarrow> (case res of Inl _ \<Rightarrow> True | Inr v \<Rightarrow> isStringArray v)"
    unfolding res listsRolesAsStrings_def by blast
  show ?case
  proof (cases res)
    case (Inl err)
    let ?s1 = "Errorf (ErrNoFrozenUser uid) sync1"
    have "remote (uc ?s1) = rem" "server (uc ?s1) = s" using rem1 by (simp_all add: Errorf_def)
    from Cons.IH[OF this rest] obtain sync' k where
      i: "verifyLoop ?s1 uids = Inr (False, sync') \<or> verifyLoop ?s1 uids = Inl (Panic, sync')"
      "said ?s1 sync' (map UserListRoles (take k uids))"
      "listsRolesAsStrings rem \<longrightarrow> verifyLoop ?s1 uids = Inr (False, sync') \<and> take k uids = uids"
      by blast
    have e: "verifyLoop sync (uid # uids) = verifyLoop ?s1 uids" using c Inl by simp
    from said_trans[OF said_call_Errorf[OF c, of "ErrNoFrozenUser uid"] i(2)] i(1,3) show ?thesis
      unfolding e by (intro exI[of _ sync'] exI[of _ "Suc k"]) simp
  next
    case (Inr v)
    show ?thesis
    proof (cases "\<exists>rs. v = XArray rs \<and> hasOrgAdmin rs = Some False")
      case True
      from Cons.IH[OF rem1 rest] obtain sync' k where
        i: "verifyLoop sync1 uids = Inr (False, sync') \<or> verifyLoop sync1 uids = Inl (Panic, sync')"
        "said sync1 sync' (map UserListRoles (take k uids))"
        "listsRolesAsStrings rem \<longrightarrow> verifyLoop sync1 uids = Inr (False, sync') \<and> take k uids = uids"
        by blast
      have e: "verifyLoop sync (uid # uids) = verifyLoop sync1 uids" using c Inr True by auto
      from said_trans[OF one i(2)] i(1,3) show ?thesis
        unfolding e by (intro exI[of _ sync'] exI[of _ "Suc k"]) simp
    next
      case False
      have noadmin: "\<And>rs. v = XArray rs \<Longrightarrow> hasOrgAdmin rs \<noteq> Some True"
        using here(2) Inr hasOrgAdmin_True by (auto simp: listsRole_def)
      with False c Inr have e: "verifyLoop sync (uid # uids) = Inl (Panic, sync1)"
        by (cases v) (auto split: option.splits bool.splits)
      have "\<not> listsRolesAsStrings rem"
      proof
        assume "listsRolesAsStrings rem"
        from shaped[OF this] Inr obtain rs where rs: "v = XArray rs"
          "list_all (\<lambda>x. case x of XString _ \<Rightarrow> True | _ \<Rightarrow> False) rs"
          by (cases v) (auto simp: isStringArray_def)
        from hasOrgAdmin_strings[OF rs(2)] noadmin[OF rs(1)] False rs(1) show False
          by (cases "hasOrgAdmin rs") auto
      qed
      with one show ?thesis
        unfolding e by (intro exI[of _ sync1] exI[of _ "Suc 0"]) simp
    qed
  qed
qed

text \<open>
  C1. When no frozen uid holds \<^verbatim>\<open>org_admin\<close> on the destination (its role listing
  fails or comes back without the role), the run ends in \<^verbatim>\<open>Start\<close>: the three user
  lists are as they were (the staged set has not been computed), the only calls made are
  role listings of frozen uids, and no write call has been made. When the connection is
  up and the listings are arrays of strings, every frozen uid has been looked up and the
  run ends with the guard's fatal message.
\<close>

theorem lockout_guard_aborts_before_any_write:
  assumes "lockedOut sync"
  shows "\<exists>f sync'.
           Start dial sync = Inl (f, sync') \<and>
           ldapusers sync' = ldapusers sync \<and> uyuniusers sync' = uyuniusers sync \<and>
           allldapusers sync' = allldapusers sync \<and>
           trace (uc sync') = trace (uc sync) @ since sync sync' \<and>
           (\<exists>k. since sync sync' = map UserListRoles (take k (Frozen (cr sync)))) \<and>
           writeTargets (since sync sync') = [] \<and>
           (\<not> isl (Connect dial (lc sync)) \<and> listsRolesAsStrings (remote (uc sync)) \<longrightarrow>
              f = FatalNoFrozenOrgAdmin \<and> since sync sync' = map UserListRoles (Frozen (cr sync)))"
proof (cases "Connect dial (lc sync)")
  case (Inl f)
  then have e: "Start dial sync = Inl (f, sync)" by (simp add: Start_def)
  show ?thesis
    unfolding e using Inl
    by (intro exI[of _ f] exI[of _ sync])
      (auto simp: since_def writeTargets_def List.map_filter_simps intro: exI[of _ 0])
next
  case (Inr c)
  let ?s0 = "sync\<lparr>lc := c\<rparr>"
  let ?uids = "Frozen (cr sync)"
  from assms have H: "\<forall>uid \<in> set ?uids.
      case remote (uc sync) (server (uc sync)) (UserListRoles uid) of
        (res, s') \<Rightarrow> s' = server (uc sync) \<and> \<not> listsRole res ''org_admin''"
    by (simp add: lockedOut_def)
  from verifyLoop_locked[of ?s0 "remote (uc sync)" "server (uc sync)" ?uids] H
  obtain sync' k where
    v: "verifyLoop ?s0 ?uids = Inr (False, sync') \<or> verifyLoop ?s0 ?uids = Inl (Panic, sync')"
    and s: "said ?s0 sync' (map UserListRoles (take k ?uids))"
    and w: "listsRolesAsStrings (remote (uc sync)) \<longrightarrow>
              verifyLoop ?s0 ?uids = Inr (False, sync') \<and> take k ?uids = ?uids"
    by auto
  from v obtain f where f: "verifyIgnoredUsers ?s0 = Inl (f, sync')"
    "verifyLoop ?s0 ?uids = Inr (False, sync') \<longrightarrow> f = FatalNoFrozenOrgAdmin"
    by (auto simp: verifyIgnoredUsers_def)
  with Inr have e: "Start dial sync = Inl (f, sync')" by (simp add: Start_def andThen_def)
  from s have t: "trace (uc sync') = trace (uc sync) @ map UserListRoles (take k ?uids)"
    and l: "ldapusers sync' = ldapusers sync" "uyuniusers sync' = uyuniusers sync"
    "allldapusers sync' = allldapusers sync"
    by (simp_all add: said_def)
  have sn: "since sync sync' = map UserListRoles (take k ?uids)"
    by (rule since_append[OF t])
  have wr: "writeTargets (map UserListRoles (take k ?uids)) = []"
    by (rule reads_write_nothing) auto
  show ?thesis
    unfolding e using t l sn wr w f(2) Inr
    by (intro exI[of _ f] exI[of _ sync']) auto
qed

lemma locked_example: "lockedOut lockedSync"
  by (simp add: lockedOut_def lockedSync_def NewLDAPSync_def referenceCaller_def exampleConfig_def
      exampleAccounts_def answer_def known_def rolesOf_def listsRole_def)

lemma locked_remote: "remote (uc lockedSync) = uyuniServer"
  by (simp add: lockedSync_def NewLDAPSync_def referenceCaller_def)

lemma locked_connect: "\<not> isl (Connect exampleDial (lc lockedSync))"
  by (simp add: Connect_def exampleDial_def lockedSync_def NewLDAPSync_def NewLDAPCaller_def
      SetHost_def SetPort_def SetUser_def SetPassword_def)

lemma locked_frozen: "Frozen (cr lockedSync) = [''administrator'', ''root'']"
  by (simp add: lockedSync_def NewLDAPSync_def)

theorem lockout_guard_aborts_before_any_write_witness:
  "\<exists>sync'. Start exampleDial lockedSync = Inl (FatalNoFrozenOrgAdmin, sync') \<and>
      since lockedSync sync' = [UserListRoles ''administrator'', UserListRoles ''root''] \<and>
      writeTargets (since lockedSync sync') = [] \<and>
      ldapusers sync' = ldapusers lockedSync"
  using lockout_guard_aborts_before_any_write[OF locked_example, of exampleDial]
    locked_connect uyuniServer_lists_strings
  by (auto simp: locked_remote locked_frozen)

section \<open>Role changes: classification and the role push\<close>
































end
